theory Spec2Isabelle
  imports Main
begin

section \<open>JavaScript primitives used by the provider\<close>

text \<open>
  The provider (\<^verbatim>\<open>src/SubsPlease.ts\<close>) is TypeScript.  Its strings are modelled as
  \<^typ>\<open>string\<close>, read as sequences of code units below 256.  The Numbers that the
  provider computes are \<^verbatim>\<open>NaN\<close>, the two infinities and integers that are doubles;
  minus zero is identified with zero.  Status codes, time values and the numbers of the
  search options are integers.
\<close>

subsection \<open>Character classes\<close>

definition isDigit :: "char \<Rightarrow> bool" where
  \<comment> \<open>the regular-expression class \<^verbatim>\<open>\d\<close>, and the radix-10 digits of \<^verbatim>\<open>parseInt\<close>\<close>
  "isDigit c = (48 \<le> (of_char c :: nat) \<and> (of_char c :: nat) \<le> 57)"

definition isAlnum :: "char \<Rightarrow> bool" where
  \<comment> \<open>the regular-expression class \<^verbatim>\<open>[a-zA-Z0-9]\<close>\<close>
  "isAlnum c =
     ((97 \<le> (of_char c :: nat) \<and> (of_char c :: nat) \<le> 122) \<or>
      (65 \<le> (of_char c :: nat) \<and> (of_char c :: nat) \<le> 90) \<or>
      (48 \<le> (of_char c :: nat) \<and> (of_char c :: nat) \<le> 57))"

definition isWhiteSpace :: "char \<Rightarrow> bool" where
  \<comment> \<open>\<^verbatim>\<open>StrWhiteSpaceChar\<close> below 256: TAB, LF, VT, FF, CR, SP, NBSP\<close>
  "isWhiteSpace c = ((of_char c :: nat) \<in> {9, 10, 11, 12, 13, 32, 160})"

subsection \<open>\<^verbatim>\<open>parseInt(s, 10)\<close>\<close>

definition digitValue :: "char \<Rightarrow> nat" where
  "digitValue c = of_char c - 48"

definition decimalValue :: "string \<Rightarrow> nat" where
  "decimalValue Z = foldl (\<lambda>acc c. 10 * acc + digitValue c) 0 Z"

datatype number = NaN | Finite int | Infinity | MinusInfinity

fun binaryExponent :: "nat \<Rightarrow> nat" where
  \<comment> \<open>the least \<open>e\<close> with \<open>n div 2 ^ e < 2 ^ 53\<close>: the exponent of the double next to \<open>n\<close>\<close>
  "binaryExponent n = (if n < 9007199254740992 then 0 else Suc (binaryExponent (n div 2)))"

declare binaryExponent.simps [simp del]

definition roundToDouble :: "nat \<Rightarrow> nat option" where
  \<comment> \<open>the double nearest to a natural number, the one with the even significand on a tie;
      \<^term>\<open>None\<close> when that rounding reaches \<open>2 ^ 1024\<close>, beyond the finite doubles\<close>
  "roundToDouble n =
     (let e = binaryExponent n;
          q = n div 2 ^ e;
          r = n mod 2 ^ e;
          q' = (if 2 ^ e < 2 * r \<or> (2 * r = 2 ^ e \<and> odd q) then q + 1 else q)
      in if 2 ^ 1024 \<le> q' * 2 ^ e then None else Some (q' * 2 ^ e))"

definition toNumber :: "int \<Rightarrow> number" where
  \<comment> \<open>the Number value of a mathematical integer\<close>
  "toNumber i =
     (case roundToDouble (nat \<bar>i\<bar>) of
        None \<Rightarrow> if i < 0 then MinusInfinity else Infinity
      | Some v \<Rightarrow> Finite (if i < 0 then - int v else int v))"

definition parseInt :: "string \<Rightarrow> number" where
  \<comment> \<open>leading white space is skipped, one sign is read, then the longest run of digits;
      no digit at all gives \<^verbatim>\<open>NaN\<close>, otherwise the Number value of the signed integer
      that the digits write (all digits are read)\<close>
  "parseInt s =
     (let S = dropWhile isWhiteSpace s;
          sign = (if S \<noteq> [] \<and> hd S = CHR ''-'' then - 1 else 1);
          S' = (if S \<noteq> [] \<and> (hd S = CHR ''+'' \<or> hd S = CHR ''-'') then tl S else S);
          Z = takeWhile isDigit S'
      in if Z = [] then NaN else toNumber (sign * int (decimalValue Z)))"

definition strictEquals :: "number \<Rightarrow> number \<Rightarrow> bool" where
  \<comment> \<open>\<^verbatim>\<open>a === b\<close> on Numbers\<close>
  "strictEquals a b = (a \<noteq> NaN \<and> b \<noteq> NaN \<and> a = b)"

definition greaterThanZero :: "number \<Rightarrow> bool" where
  \<comment> \<open>\<^verbatim>\<open>a > 0\<close> on Numbers\<close>
  "greaterThanZero a =
     (case a of NaN \<Rightarrow> False | Finite n \<Rightarrow> 0 < n | Infinity \<Rightarrow> True | MinusInfinity \<Rightarrow> False)"

subsection \<open>\<^verbatim>\<open>String(n)\<close>, \<^verbatim>\<open>padStart\<close>, \<^verbatim>\<open>toFixed(2)\<close>, \<^verbatim>\<open>replace\<close>, \<^verbatim>\<open>toUpperCase\<close>\<close>

fun digits :: "nat \<Rightarrow> string" where
  "digits n =
     (if n < 10 then [''0123456789'' ! n]
      else digits (n div 10) @ [''0123456789'' ! (n mod 10)])"

declare digits.simps [simp del]

definition String_int :: "int \<Rightarrow> string" where
  "String_int n = (if n < 0 then ''-'' @ digits (nat (- n)) else digits (nat n))"

definition String_number :: "(int \<Rightarrow> string) \<Rightarrow> number \<Rightarrow> string" where
  \<comment> \<open>\<^verbatim>\<open>String(x)\<close>: an integer below \<open>2^53\<close> in magnitude is written with all its
      digits; for a larger one the shortest digits that read back as the same double are
      written, with an exponent from \<open>10^21\<close>, which is left to the host function \<open>big\<close>\<close>
  "String_number big x =
     (case x of
        NaN \<Rightarrow> ''NaN''
      | Finite n \<Rightarrow> if \<bar>n\<bar> < 9007199254740992 then String_int n else big n
      | Infinity \<Rightarrow> ''Infinity''
      | MinusInfinity \<Rightarrow> ''-Infinity'')"

definition padStart :: "string \<Rightarrow> nat \<Rightarrow> char \<Rightarrow> string" where
  "padStart s n c = replicate (n - length s) c @ s"

definition toFixed2_MiB :: "(int \<Rightarrow> string) \<Rightarrow> number \<Rightarrow> string" where
  \<comment> \<open>\<^verbatim>\<open>(sizeInBytes / (1024 * 1024)).toFixed(2)\<close>: the division of a double by \<open>2^20\<close>
      is exact; \<^verbatim>\<open>toFixed\<close> takes the nearest multiple of \<open>1/100\<close> of the magnitude,
      the larger one on a tie, and from \<open>10^21\<close> writes the quotient (then an integer)
      as \<^verbatim>\<open>String\<close> does\<close>
  "toFixed2_MiB big sizeInBytes =
     (case sizeInBytes of
        NaN \<Rightarrow> ''NaN''
      | Finite b \<Rightarrow>
          if 1000000000000000000000 * 1048576 \<le> \<bar>b\<bar> then big (b div 1048576)
          else (let n = nat ((100 * \<bar>b\<bar> + 524288) div 1048576);
                    m = padStart (digits n) 3 CHR ''0'';
                    k = length m
                in (if b < 0 then ''-'' else []) @ take (k - 2) m @ ''.'' @ drop (k - 2) m)
      | Infinity \<Rightarrow> ''Infinity''
      | MinusInfinity \<Rightarrow> ''-Infinity'')"

fun replace_first :: "char \<Rightarrow> string \<Rightarrow> string" where
  \<comment> \<open>\<^verbatim>\<open>s.replace(c, '')\<close> with a one-character string pattern: only the first
      occurrence is removed\<close>
  "replace_first c [] = []"
| "replace_first c (x # xs) = (if x = c then xs else x # replace_first c xs)"

definition toUpperCase_char :: "char \<Rightarrow> char" where
  \<comment> \<open>on the code units \<^verbatim>\<open>a\<close> to \<^verbatim>\<open>z\<close>; the other characters of the class
      \<^verbatim>\<open>[a-zA-Z0-9]\<close> are unchanged\<close>
  "toUpperCase_char c =
     (if 97 \<le> (of_char c :: nat) \<and> (of_char c :: nat) \<le> 122
      then char_of ((of_char c :: nat) - 32) else c)"

definition toUpperCase :: "string \<Rightarrow> string" where
  \<comment> \<open>the provider applies it to \<^verbatim>\<open>[a-zA-Z0-9]+\<close> tokens only\<close>
  "toUpperCase s = map toUpperCase_char s"

subsection \<open>\<^verbatim>\<open>String.prototype.match\<close> with the pattern \<^verbatim>\<open>/lit(cls+)/\<close>\<close>

fun match_group :: "string \<Rightarrow> (char \<Rightarrow> bool) \<Rightarrow> string \<Rightarrow> string option" where
  \<comment> \<open>the first capture group of the leftmost match: the literal, then the longest
      non-empty run of characters of the class\<close>
  "match_group lit cls [] = None"
| "match_group lit cls (c # cs) =
     (if take (length lit) (c # cs) = lit \<and> takeWhile cls (drop (length lit) (c # cs)) \<noteq> []
      then Some (takeWhile cls (drop (length lit) (c # cs)))
      else match_group lit cls cs)"

subsection \<open>\<^verbatim>\<open>encodeURIComponent\<close>\<close>

definition hex2 :: "nat \<Rightarrow> string" where
  "hex2 n = [''0123456789ABCDEF'' ! (n div 16 mod 16), ''0123456789ABCDEF'' ! (n mod 16)]"

definition encodeURIComponent_char :: "char \<Rightarrow> string" where
  "encodeURIComponent_char c =
     (let n = (of_char c :: nat)
      in if isAlnum c \<or> c \<in> set ''-_.!~*()'' \<or> n = 39 then [c]
         else if n < 128 then ''%'' @ hex2 n
         else ''%'' @ hex2 (192 + n div 64) @ ''%'' @ hex2 (128 + n mod 64))"

definition encodeURIComponent :: "string \<Rightarrow> string" where
  "encodeURIComponent s = concat (map encodeURIComponent_char s)"

subsection \<open>\<^verbatim>\<open>Date\<close>: time values and \<^verbatim>\<open>toISOString\<close>\<close>

text \<open>
  A time value is a number of milliseconds since the epoch, of magnitude at most
  \<open>8.64 \<times> 10^15\<close>; \<^verbatim>\<open>NaN\<close> is the invalid date.
\<close>

definition msPerDay :: int where
  "msPerDay = 86400000"

definition timeInRange :: "int \<Rightarrow> bool" where
  "timeInRange t = (\<bar>t\<bar> \<le> 8640000000000000)"

definition TimeClip :: "int option \<Rightarrow> int option" where
  "TimeClip x = (case x of None \<Rightarrow> None | Some t \<Rightarrow> if timeInRange t then Some t else None)"

definition Day :: "int \<Rightarrow> int" where
  "Day t = t div msPerDay"

definition DaysInYear :: "int \<Rightarrow> int" where
  "DaysInYear y =
     (if y mod 4 \<noteq> 0 then 365 else if y mod 100 \<noteq> 0 then 366
      else if y mod 400 \<noteq> 0 then 365 else 366)"

definition DayFromYear :: "int \<Rightarrow> int" where
  "DayFromYear y =
     365 * (y - 1970) + (y - 1969) div 4 - (y - 1901) div 100 + (y - 1601) div 400"

definition YearFromTime :: "int \<Rightarrow> int" where
  \<comment> \<open>the year \<open>y\<close> with \<open>DayFromYear y \<le> Day t < DayFromYear (y + 1)\<close>, found from
      the mean year length and one step of adjustment\<close>
  "YearFromTime t =
     (let d = Day t; y = 1970 + (400 * d) div 146097
      in if d < DayFromYear y then y - 1
         else if DayFromYear (y + 1) \<le> d then y + 1
         else y)"

definition InLeapYear :: "int \<Rightarrow> int" where
  "InLeapYear t = (if DaysInYear (YearFromTime t) = 366 then 1 else 0)"

definition DayWithinYear :: "int \<Rightarrow> int" where
  "DayWithinYear t = Day t - DayFromYear (YearFromTime t)"

definition MonthFromTime :: "int \<Rightarrow> int" where
  "MonthFromTime t =
     (let d = DayWithinYear t; l = InLeapYear t
      in if d < 31 then 0
         else if d < 59 + l then 1
         else if d < 90 + l then 2
         else if d < 120 + l then 3
         else if d < 151 + l then 4
         else if d < 181 + l then 5
         else if d < 212 + l then 6
         else if d < 243 + l then 7
         else if d < 273 + l then 8
         else if d < 304 + l then 9
         else if d < 334 + l then 10
         else 11)"

definition DateFromTime :: "int \<Rightarrow> int" where
  "DateFromTime t =
     (let d = DayWithinYear t; l = InLeapYear t; m = MonthFromTime t
      in if m = 0 then d + 1
         else if m = 1 then d - 30
         else if m = 2 then d - 58 - l
         else if m = 3 then d - 89 - l
         else if m = 4 then d - 119 - l
         else if m = 5 then d - 150 - l
         else if m = 6 then d - 180 - l
         else if m = 7 then d - 211 - l
         else if m = 8 then d - 242 - l
         else if m = 9 then d - 272 - l
         else if m = 10 then d - 303 - l
         else d - 333 - l)"

definition HourFromTime :: "int \<Rightarrow> int" where
  "HourFromTime t = (t div 3600000) mod 24"

definition MinFromTime :: "int \<Rightarrow> int" where
  "MinFromTime t = (t div 60000) mod 60"

definition SecFromTime :: "int \<Rightarrow> int" where
  "SecFromTime t = (t div 1000) mod 60"

definition msFromTime :: "int \<Rightarrow> int" where
  "msFromTime t = t mod 1000"

definition pad :: "nat \<Rightarrow> int \<Rightarrow> string" where
  \<comment> \<open>a non-negative integer in decimal, zero-padded to at least \<open>w\<close> digits\<close>
  "pad w n = padStart (digits (nat n)) w CHR ''0''"

definition isoYear :: "int \<Rightarrow> string" where
  \<comment> \<open>four digits for the years 0 to 9999, otherwise a sign and six digits\<close>
  "isoYear y =
     (if 0 \<le> y \<and> y \<le> 9999 then pad 4 y
      else if y < 0 then ''-'' @ pad 6 (- y)
      else ''+'' @ pad 6 y)"

definition toISOString :: "int \<Rightarrow> string" where
  \<comment> \<open>\<^verbatim>\<open>Date.prototype.toISOString\<close> of a valid date with time value \<open>t\<close>\<close>
  "toISOString t =
     isoYear (YearFromTime t) @ ''-'' @ pad 2 (MonthFromTime t + 1) @ ''-'' @
     pad 2 (DateFromTime t) @ ''T'' @ pad 2 (HourFromTime t) @ '':'' @
     pad 2 (MinFromTime t) @ '':'' @ pad 2 (SecFromTime t) @ ''.'' @
     pad 3 (msFromTime t) @ ''Z''"

section \<open>Data model\<close>

record SubsPleaseDownload =
  res :: string
  magnet :: string

record SubsPleaseRelease =
  show_title :: string  \<comment> \<open>the field \<^verbatim>\<open>show\<close>\<close>
  episode :: string
  downloads :: "SubsPleaseDownload list"
  release_date :: string
  page :: string

text \<open>
  Modelled from the spec: the search options and the media descriptor, whose declarations
  (\<^verbatim>\<open>core.d.ts\<close>) the provider only references.  The fields are those the provider
  reads: a free-text query, two fallback titles, the target episode number, the
  absolute-episode offset, the target resolution label and the batch flag.  A title that
  is absent behaves under \<^verbatim>\<open>||\<close> as the empty string does, so titles are plain
  strings; the numbers are integers.  The torrent record has the fields of the object
  literal that the provider builds; its size and its episode number come from
  \<^const>\<open>parseInt\<close> and are Numbers.
\<close>

record Media =
  romajiTitle :: string
  englishTitle :: string
  absoluteSeasonOffset :: int

record AnimeSearchOptions =
  media :: Media
  query :: string

record AnimeSmartSearchOptions = AnimeSearchOptions +
  batch :: bool
  episodeNumber :: int
  resolution :: string

record AnimeTorrent =
  name :: string
  date :: string
  size' :: number  \<comment> \<open>the field \<^verbatim>\<open>size\<close>\<close>
  formattedSize :: string
  seeders :: int
  leechers :: int
  downloadCount :: int
  link :: string
  downloadUrl :: string
  magnetLink :: string
  infoHash :: string
  resolution :: string
  isBatch :: bool
  episodeNumber :: number
  releaseGroup :: string
  isBestRelease :: bool
  confirmed :: bool

section \<open>The host: transport, clock, date parser and number printer\<close>

datatype js_error = Error string

datatype payload =
  NotObject  \<comment> \<open>\<^verbatim>\<open>null\<close>, or a value whose \<^verbatim>\<open>typeof\<close> is not \<^verbatim>\<open>'object'\<close>\<close>
| Object "(string \<times> SubsPleaseRelease) list"  \<comment> \<open>the entries in \<^verbatim>\<open>for ... in\<close> order\<close>

record Response =
  ok :: bool
  status :: int
  json :: "js_error + payload"

record host =
  fetch :: "string \<Rightarrow> js_error + Response"
    \<comment> \<open>the awaited \<^verbatim>\<open>fetch(url)\<close>: a rejection or a response\<close>
  Date_parse :: "string \<Rightarrow> int option"
    \<comment> \<open>the host's date-string parser, \<^verbatim>\<open>NaN\<close> as \<^term>\<open>None\<close>\<close>
  clock :: "nat \<Rightarrow> int"
    \<comment> \<open>the current time value at the \<open>i\<close>-th call of the normalizer\<close>
  Number_toString :: "int \<Rightarrow> string"
    \<comment> \<open>\<^verbatim>\<open>String(x)\<close> for an integer \<open>x\<close> of magnitude \<open>2^53\<close> or more\<close>

section \<open>The provider\<close>

definition api :: string where
  "api = ''https://subsplease.org/api/''"

definition getHashFromMagnet :: "string \<Rightarrow> string" where
  "getHashFromMagnet magnet' =
     (case match_group ''btih:'' isAlnum magnet' of
        Some m1 \<Rightarrow> toUpperCase m1
      | None \<Rightarrow> [])"

definition getSizeFromMagnet :: "string \<Rightarrow> number" where
  "getSizeFromMagnet magnet' =
     (case match_group ''xl='' isDigit magnet' of
        Some m1 \<Rightarrow> parseInt m1
      | None \<Rightarrow> Finite 0)"

definition new_Date :: "host \<Rightarrow> string \<Rightarrow> int option" where
  \<comment> \<open>\<^verbatim>\<open>new Date(s).getTime()\<close>\<close>
  "new_Date h s = TimeClip (Date_parse h s)"

definition apiReleaseToAnimeTorrents ::
  "host \<Rightarrow> nat \<Rightarrow> SubsPleaseRelease \<Rightarrow> AnimeTorrent list" where
  "apiReleaseToAnimeTorrents h i release =
     (let episodeNumber = parseInt (episode release);
          parsedDate = new_Date h (release_date release);
          date = (case parsedDate of
                    Some t \<Rightarrow> toISOString t
                  | None \<Rightarrow> toISOString (clock h i))
      in map (\<lambda>download.
           let resolution = res download @ ''p'';
               sizeInBytes = getSizeFromMagnet (magnet download);
               name = ''[SubsPlease] '' @ show_title release @ '' - '' @
                      padStart (String_number (Number_toString h) episodeNumber) 2 CHR ''0'' @
                      '' ('' @ resolution @ '') ['' @
                      getHashFromMagnet (magnet download) @ ''].mkv''
           in \<lparr> name = name,
                date = date,
                size' = sizeInBytes,
                formattedSize =
                  (if greaterThanZero sizeInBytes
                   then toFixed2_MiB (Number_toString h) sizeInBytes @ '' MB''
                   else ''N/A''),
                seeders = - 1,
                leechers = - 1,
                downloadCount = 0,
                link = ''https://subsplease.org/shows/'' @ page release @ ''/'',
                downloadUrl = [],
                magnetLink = magnet download,
                infoHash = getHashFromMagnet (magnet download),
                resolution = resolution,
                isBatch = False,
                episodeNumber = (if episodeNumber = NaN then Finite (- 1) else episodeNumber),
                releaseGroup = ''SubsPlease'',
                isBestRelease = False,
                confirmed = True \<rparr>)
         (downloads release))"

fun collect :: "host \<Rightarrow> nat \<Rightarrow> (string \<times> SubsPleaseRelease) list \<Rightarrow> AnimeTorrent list" where
  \<comment> \<open>the \<^verbatim>\<open>for (const key in data)\<close> loop; \<open>i\<close> counts the normalizer calls made so far\<close>
  "collect h i [] = []"
| "collect h i ((key, release) # rest) =
     (if episode release \<noteq> ''Batch''
      then apiReleaseToAnimeTorrents h i release @ collect h (Suc i) rest
      else collect h i rest)"

definition fetchAndParseSearchResults :: "host \<Rightarrow> string \<Rightarrow> js_error + AnimeTorrent list" where
  "fetchAndParseSearchResults h query' =
     (let searchUrl = api @ ''?f=search&tz=UTC&s='' @ encodeURIComponent query'
      in case fetch h searchUrl of
           Inl e \<Rightarrow> Inl e
         | Inr response \<Rightarrow>
             if \<not> ok response
             then Inl (Error (''Failed to fetch from SubsPlease API, status: '' @
                              String_int (status response)))
             else (case json response of
                     Inl e \<Rightarrow> Inl e
                   | Inr NotObject \<Rightarrow> Inr []
                   | Inr (Object data) \<Rightarrow> Inr (collect h 0 data)))"

definition getLatest :: "host \<Rightarrow> js_error + AnimeTorrent list" where
  "getLatest h = fetchAndParseSearchResults h []"

definition search :: "host \<Rightarrow> 'a AnimeSearchOptions_scheme \<Rightarrow> js_error + AnimeTorrent list" where
  "search h opts = fetchAndParseSearchResults h (query opts)"

definition or_else :: "string \<Rightarrow> string \<Rightarrow> string" where
  \<comment> \<open>\<^verbatim>\<open>a || b\<close> on strings: the empty string is falsy\<close>
  "or_else a b = (if a \<noteq> [] then a else b)"

definition filterEpisode :: "AnimeSmartSearchOptions \<Rightarrow> AnimeTorrent list \<Rightarrow> AnimeTorrent list" where
  \<comment> \<open>the block \<^verbatim>\<open>if (opts.episodeNumber > 0) { ... }\<close>\<close>
  "filterEpisode opts filtered =
     (if AnimeSmartSearchOptions.episodeNumber opts > 0
      then let absoluteEpisode =
                 absoluteSeasonOffset (media opts) + AnimeSmartSearchOptions.episodeNumber opts
           in filter (\<lambda>t. \<not> isBatch t \<and>
                          (strictEquals (episodeNumber t)
                             (Finite (AnimeSmartSearchOptions.episodeNumber opts)) \<or>
                           strictEquals (episodeNumber t) (Finite absoluteEpisode)))
                filtered
      else filtered)"

definition filterResolution :: "AnimeSmartSearchOptions \<Rightarrow> AnimeTorrent list \<Rightarrow> AnimeTorrent list" where
  \<comment> \<open>the block \<^verbatim>\<open>if (opts.resolution) { ... }\<close>\<close>
  "filterResolution opts filtered =
     (if AnimeSmartSearchOptions.resolution opts \<noteq> []
      then let targetRes =
                 parseInt (replace_first CHR ''p'' (AnimeSmartSearchOptions.resolution opts))
           in if targetRes \<noteq> NaN
              then filter (\<lambda>t. let torrentRes = parseInt (replace_first CHR ''p'' (resolution t))
                               in strictEquals torrentRes targetRes)
                     filtered
              else filtered
      else filtered)"

definition smartSearch :: "host \<Rightarrow> AnimeSmartSearchOptions \<Rightarrow> js_error + AnimeTorrent list" where
  "smartSearch h opts =
     (if batch opts then Inr []
      else let query = or_else (query opts)
                         (or_else (romajiTitle (media opts))
                            (or_else (englishTitle (media opts)) []))
           in case fetchAndParseSearchResults h query of
                Inl e \<Rightarrow> Inl e
              | Inr allTorrents \<Rightarrow> Inr (filterResolution opts (filterEpisode opts allTorrents)))"

definition getTorrentMagnetLink :: "AnimeTorrent \<Rightarrow> string" where
  "getTorrentMagnetLink torrent = or_else (magnetLink torrent) []"

section \<open>Notions of the specification\<close>

definition numericallyEqual :: "number \<Rightarrow> number \<Rightarrow> bool" where
  \<comment> \<open>equality of two parsed labels: one that failed to parse equals nothing\<close>
  "numericallyEqual a b = (case a of NaN \<Rightarrow> False | _ \<Rightarrow> a = b)"

definition isUpper :: "char \<Rightarrow> bool" where
  \<comment> \<open>the upper-case letters \<^verbatim>\<open>A\<close> to \<^verbatim>\<open>Z\<close>\<close>
  "isUpper c = (65 \<le> (of_char c :: nat) \<and> (of_char c :: nat) \<le> 90)"

definition stripTrailingUnit :: "string \<Rightarrow> string" where
  \<comment> \<open>the specification's reading of the label normalisation: the unit character
      \<^verbatim>\<open>p\<close> is taken off the end of the label\<close>
  "stripTrailingUnit s = (if s \<noteq> [] \<and> last s = CHR ''p'' then butlast s else s)"

definition digitsValue :: "string \<Rightarrow> nat option" where
  \<comment> \<open>the number written by a non-empty string of decimal digits\<close>
  "digitsValue s = (if s \<noteq> [] \<and> list_all isDigit s then Some (decimalValue s) else None)"

definition daysInMonth :: "int \<Rightarrow> nat \<Rightarrow> nat" where
  \<comment> \<open>the length of month \<open>m\<close> (1 to 12) of the Gregorian year \<open>y\<close>\<close>
  "daysInMonth y m =
     (if m = 2 then (if y mod 4 = 0 \<and> (y mod 100 \<noteq> 0 \<or> y mod 400 = 0) then 29 else 28)
      else if m = 4 \<or> m = 6 \<or> m = 9 \<or> m = 11 then 30
      else 31)"

definition isoYearValue :: "string \<Rightarrow> int option" where
  \<comment> \<open>a year of ISO 8601: four digits, or the expanded form of a sign and six digits,
      where minus zero is not a year\<close>
  "isoYearValue s =
     (if length s = 4 then map_option int (digitsValue s)
      else if length s = 7 \<and> hd s = CHR ''+'' then map_option int (digitsValue (tl s))
      else if length s = 7 \<and> hd s = CHR ''-''
      then (case digitsValue (tl s) of
              None \<Rightarrow> None
            | Some n \<Rightarrow> if n = 0 then None else Some (- int n))
      else None)"

definition fieldIn :: "string \<Rightarrow> nat \<Rightarrow> nat \<Rightarrow> nat \<Rightarrow> nat \<Rightarrow> bool" where
  \<comment> \<open>the \<open>w\<close> characters at offset \<open>k\<close> are digits writing a number from \<open>lo\<close> to \<open>hi\<close>\<close>
  "fieldIn r k w lo hi =
     (case digitsValue (take w (drop k r)) of
        None \<Rightarrow> False
      | Some v \<Rightarrow> lo \<le> v \<and> v \<le> hi)"

definition validISO8601 :: "string \<Rightarrow> bool" where
  \<comment> \<open>a complete date and time of ISO 8601 in the extended format, in UTC with
      milliseconds: \<^verbatim>\<open>YYYY-MM-DDTHH:mm:ss.sssZ\<close>, the year possibly expanded, the day
      within the length of its month\<close>
  "validISO8601 s =
     (let n = length s - 20; r = drop n s
      in length r = 20 \<and>
         r ! 0 = CHR ''-'' \<and> r ! 3 = CHR ''-'' \<and> r ! 6 = CHR ''T'' \<and> r ! 9 = CHR '':'' \<and>
         r ! 12 = CHR '':'' \<and> r ! 15 = CHR ''.'' \<and> r ! 19 = CHR ''Z'' \<and>
         (case isoYearValue (take n s) of
            None \<Rightarrow> False
          | Some y \<Rightarrow>
              (case digitsValue (take 2 (drop 1 r)) of
                 None \<Rightarrow> False
               | Some mo \<Rightarrow> 1 \<le> mo \<and> mo \<le> 12 \<and> fieldIn r 4 2 1 (daysInMonth y mo))) \<and>
         fieldIn r 7 2 0 23 \<and> fieldIn r 10 2 0 59 \<and> fieldIn r 13 2 0 59 \<and>
         fieldIn r 16 3 0 999)"

definition daysBeforeYear :: "int \<Rightarrow> int" where
  \<comment> \<open>the days from 1 January 1970 to 1 January of the Gregorian year \<open>y\<close>: every
      year has 365 days and one more for each leap year before it; year 1 begins 719162
      days before 1970\<close>
  "daysBeforeYear y =
     365 * (y - 1) + (y - 1) div 4 - (y - 1) div 100 + (y - 1) div 400 - 719162"

definition daysBeforeMonth :: "int \<Rightarrow> nat \<Rightarrow> nat" where
  \<comment> \<open>the days of year \<open>y\<close> before its month \<open>m\<close>\<close>
  "daysBeforeMonth y m = sum_list (map (daysInMonth y) [1..<m])"

definition fieldOf :: "string \<Rightarrow> nat \<Rightarrow> nat \<Rightarrow> nat" where
  \<comment> \<open>the number written by the \<open>w\<close> characters at offset \<open>k\<close>\<close>
  "fieldOf r k w = (case digitsValue (take w (drop k r)) of None \<Rightarrow> 0 | Some v \<Rightarrow> v)"

definition instantOfISO8601 :: "string \<Rightarrow> int option" where
  \<comment> \<open>the instant that a valid string denotes, in milliseconds since the beginning of
      1970 (UTC), read from its year, month, day, hour, minute, second and milliseconds\<close>
  "instantOfISO8601 s =
     (if \<not> validISO8601 s then None
      else let n = length s - 20; r = drop n s
           in case isoYearValue (take n s) of
                None \<Rightarrow> None
              | Some y \<Rightarrow>
                  Some ((daysBeforeYear y + int (daysBeforeMonth y (fieldOf r 1 2)) +
                         int (fieldOf r 4 2) - 1) * 86400000 +
                        int (fieldOf r 7 2) * 3600000 + int (fieldOf r 10 2) * 60000 +
                        int (fieldOf r 13 2) * 1000 + int (fieldOf r 16 3)))"

definition searchUrl_of :: "string \<Rightarrow> string" where
  \<comment> \<open>the URL that \<^const>\<open>fetchAndParseSearchResults\<close> requests for a query\<close>
  "searchUrl_of q = api @ ''?f=search&tz=UTC&s='' @ encodeURIComponent q"

definition effectiveQuery :: "AnimeSmartSearchOptions \<Rightarrow> string" where
  \<comment> \<open>the query that \<^const>\<open>smartSearch\<close> resolves from its options\<close>
  "effectiveQuery opts =
     or_else (query opts) (or_else (romajiTitle (media opts)) (or_else (englishTitle (media opts)) []))"

definition fetchFailure :: "int \<Rightarrow> js_error" where
  \<comment> \<open>the error raised for a response that is not ok, with its status code in the message\<close>
  "fetchFailure code = Error (''Failed to fetch from SubsPlease API, status: '' @ String_int code)"

section \<open>Concrete inputs\<close>

definition ex_download_720 :: SubsPleaseDownload where
  "ex_download_720 = \<lparr> res = ''720'', magnet = ''magnet:?xt=urn:btih:HASH1&xl=500'' \<rparr>"

definition ex_download_1080 :: SubsPleaseDownload where
  "ex_download_1080 = \<lparr> res = ''1080'', magnet = ''magnet:?xt=urn:btih:abcd1234&xl=1048576'' \<rparr>"

definition ex_release :: "string \<Rightarrow> string \<Rightarrow> SubsPleaseRelease" where
  \<comment> \<open>a release of two downloads with the given episode label and release date\<close>
  "ex_release ep d =
     \<lparr> show_title = ''X'', episode = ep, downloads = [ex_download_720, ex_download_1080],
       release_date = d, page = ''x'' \<rparr>"

definition ex_Date_parse :: "string \<Rightarrow> int option" where
  "ex_Date_parse s = (if s = ''2024-01-01T00:00:00Z'' then Some 1704067200000 else None)"

definition ex_host :: "(string \<times> SubsPleaseRelease) list \<Rightarrow> host" where
  \<comment> \<open>a host whose transport answers every request with the given payload\<close>
  "ex_host data =
     \<lparr> fetch = (\<lambda>url. Inr \<lparr> ok = True, status = 200, json = Inr (Object data) \<rparr>),
       Date_parse = ex_Date_parse,
       clock = (\<lambda>i. 1800000000000 + int i),
       Number_toString = (\<lambda>n. ''9007199254740992'') \<rparr>"

definition ex_host_status :: "int \<Rightarrow> host" where
  \<comment> \<open>a host whose transport answers every request with a non-success status\<close>
  "ex_host_status code =
     \<lparr> fetch = (\<lambda>url. Inr \<lparr> ok = False, status = code, json = Inr NotObject \<rparr>),
       Date_parse = ex_Date_parse,
       clock = (\<lambda>i. 1800000000000 + int i),
       Number_toString = (\<lambda>n. ''9007199254740992'') \<rparr>"

definition ex_opts :: "bool \<Rightarrow> int \<Rightarrow> int \<Rightarrow> string \<Rightarrow> AnimeSmartSearchOptions" where
  \<comment> \<open>batch flag, target episode, absolute offset, target resolution\<close>
  "ex_opts b ep off r =
     \<lparr> media = \<lparr> romajiTitle = ''X'', englishTitle = [], absoluteSeasonOffset = off \<rparr>,
       query = [], batch = b, episodeNumber = ep, resolution = r \<rparr>"

definition ex_torrent :: "string \<Rightarrow> AnimeTorrent" where
  \<comment> \<open>the first torrent of a release whose download has the given quality label\<close>
  "ex_torrent q =
     hd (apiReleaseToAnimeTorrents (ex_host [])
           0 \<lparr> show_title = ''X'', episode = ''3'',
               downloads = [\<lparr> res = q, magnet = ''magnet:?xt=urn:btih:HASH1&xl=500'' \<rparr>],
               release_date = [], page = ''x'' \<rparr>)"

section \<open>Numbers\<close>

lemma roundToDouble_small: "n < 9007199254740992 \<Longrightarrow> roundToDouble n = Some n"
proof -
  assume a: "n < 9007199254740992"
  then have e: "binaryExponent n = 0" by (simp add: binaryExponent.simps)
  have "(9007199254740992::nat) < 2 ^ 1024" by simp
  with a have "\<not> 2 ^ 1024 \<le> n" by linarith
  then show ?thesis by (simp add: roundToDouble_def e)
qed

lemma toNumber_small: "\<bar>i\<bar> < 9007199254740992 \<Longrightarrow> toNumber i = Finite i"
  using roundToDouble_small [of "nat \<bar>i\<bar>"] by (auto simp: toNumber_def)

lemma toNumber_not_NaN: "toNumber i \<noteq> NaN"
  by (simp add: toNumber_def split: option.splits)


lemma strictEquals_not_NaN: "b \<noteq> NaN \<Longrightarrow> strictEquals a b \<longleftrightarrow> a = b"
  by (auto simp: strictEquals_def)

lemma numericallyEqual_not_NaN: "b \<noteq> NaN \<Longrightarrow> numericallyEqual a b \<longleftrightarrow> a = b"
  by (cases a) (auto simp: numericallyEqual_def)

section \<open>The Release Normalizer, field by field\<close>

lemma length_apiReleaseToAnimeTorrents:
  "length (apiReleaseToAnimeTorrents h i r) = length (downloads r)"
  by (simp add: apiReleaseToAnimeTorrents_def Let_def)

lemma resolution_apiReleaseToAnimeTorrents:
  "map resolution (apiReleaseToAnimeTorrents h i r) = map (\<lambda>d. res d @ ''p'') (downloads r)"
  by (simp add: apiReleaseToAnimeTorrents_def Let_def o_def)

lemma magnetLink_apiReleaseToAnimeTorrents:
  "map magnetLink (apiReleaseToAnimeTorrents h i r) = map magnet (downloads r)"
  by (simp add: apiReleaseToAnimeTorrents_def Let_def o_def)

lemma episodeNumber_apiReleaseToAnimeTorrents:
  "t \<in> set (apiReleaseToAnimeTorrents h i r) \<Longrightarrow>
   episodeNumber t = (if parseInt (episode r) = NaN then Finite (- 1) else parseInt (episode r))"
  by (auto simp: apiReleaseToAnimeTorrents_def Let_def)


lemma date_apiReleaseToAnimeTorrents:
  "t \<in> set (apiReleaseToAnimeTorrents h i r) \<Longrightarrow>
   date t = (case new_Date h (release_date r) of
               Some tv \<Rightarrow> toISOString tv
             | None \<Rightarrow> toISOString (clock h i))"
  by (auto simp: apiReleaseToAnimeTorrents_def Let_def)


section \<open>The Result Set Builder\<close>

lemma collect_append:
  "collect h i (xs @ ys) =
   collect h i xs @ collect h (i + length (filter (\<lambda>e. episode (snd e) \<noteq> ''Batch'') xs)) ys"
  by (induction xs arbitrary: i) auto

lemma fetchAndParseSearchResults_ok:
  "fetch h (searchUrl_of q) = Inr resp \<Longrightarrow> ok resp \<Longrightarrow> json resp = Inr (Object data) \<Longrightarrow>
   fetchAndParseSearchResults h q = Inr (collect h 0 data)"
  by (simp add: fetchAndParseSearchResults_def searchUrl_of_def)

lemma fetchAndParseSearchResults_not_ok:
  "fetch h (searchUrl_of q) = Inr resp \<Longrightarrow> \<not> ok resp \<Longrightarrow>
   fetchAndParseSearchResults h q = Inl (fetchFailure (status resp))"
  by (simp add: fetchAndParseSearchResults_def searchUrl_of_def fetchFailure_def)

lemma smartSearch_fetch:
  "\<not> batch opts \<Longrightarrow>
   smartSearch h opts =
     (case fetchAndParseSearchResults h (effectiveQuery opts) of
        Inl e \<Rightarrow> Inl e
      | Inr allTorrents \<Rightarrow> Inr (filterResolution opts (filterEpisode opts allTorrents)))"
  by (simp add: smartSearch_def effectiveQuery_def)

lemma ex_host_fetch:
  "fetchAndParseSearchResults (ex_host data) q = Inr (collect (ex_host data) 0 data)"
  by (rule fetchAndParseSearchResults_ok [where resp = "\<lparr> ok = True, status = 200, json = Inr (Object data) \<rparr>"])
     (simp_all add: ex_host_def)

lemma map_episodeNumber_apiReleaseToAnimeTorrents:
  "map episodeNumber (apiReleaseToAnimeTorrents h i r) =
   map (\<lambda>d. (if parseInt (episode r) = NaN then Finite (- 1) else parseInt (episode r))) (downloads r)"
  by (simp add: apiReleaseToAnimeTorrents_def Let_def o_def)

section \<open>Evaluation of the concrete inputs\<close>

lemma parseInt_examples:
  "parseInt ''3'' = Finite 3" "parseInt ''4'' = Finite 4" "parseInt ''5'' = Finite 5"
  "parseInt ''6'' = Finite 6" "parseInt ''17'' = Finite 17" "parseInt ''-5'' = Finite (- 5)"
  "parseInt ''720'' = Finite 720" "parseInt ''1080'' = Finite 1080"
  "parseInt ''1080p'' = Finite 1080"
  "parseInt ''abc'' = NaN" "parseInt ''ab'' = NaN" "parseInt ''x'' = NaN"
  "parseInt ''10p80'' = Finite 10" "parseInt ''Movie'' = NaN"
  by (simp_all add: parseInt_def isWhiteSpace_def isDigit_def decimalValue_def digitValue_def
        toNumber_small)

lemma ex_release_fields:
  "episode (ex_release ep d) = ep"
  "release_date (ex_release ep d) = d"
  "downloads (ex_release ep d) = [ex_download_720, ex_download_1080]"
  by (simp_all add: ex_release_def)

section \<open>Facts about the primitives\<close>

lemma ex_torrent_resolution:
  "resolution (ex_torrent q) = q @ ''p''"
  by (simp add: ex_torrent_def apiReleaseToAnimeTorrents_def Let_def)

lemma String_int_503: "String_int 503 = ''503''"
  by (simp add: String_int_def digits.simps)

lemma toNumber_nonneg:
  "0 \<le> i \<Longrightarrow> toNumber i \<noteq> MinusInfinity \<and> (\<forall>n. toNumber i = Finite n \<longrightarrow> 0 \<le> n)"
  by (auto simp: toNumber_def split: option.splits)

lemma parseInt_minus_sign:
  assumes "parseInt s = MinusInfinity \<or> (\<exists>n. parseInt s = Finite n \<and> n < 0)"
  shows "take 1 (dropWhile isWhiteSpace s) = ''-''"
proof -
  let ?S = "dropWhile isWhiteSpace s"
  have "?S \<noteq> [] \<and> hd ?S = CHR ''-''"
  proof (rule ccontr)
    assume n: "\<not> (?S \<noteq> [] \<and> hd ?S = CHR ''-'')"
    define Z where "Z = takeWhile isDigit
      (if ?S \<noteq> [] \<and> (hd ?S = CHR ''+'' \<or> hd ?S = CHR ''-'') then tl ?S else ?S)"
    from n have p: "parseInt s = (if Z = [] then NaN else toNumber (int (decimalValue Z)))"
      by (auto simp: parseInt_def Let_def Z_def)
    show False
    proof (cases "Z = []")
      case True
      with p assms show False by simp
    next
      case False
      with p have "parseInt s = toNumber (int (decimalValue Z))" by simp
      with assms toNumber_nonneg [of "int (decimalValue Z)"] show False by auto
    qed
  qed
  then show ?thesis by (cases ?S) simp_all
qed

lemma replace_first_absent: "c \<notin> set s \<Longrightarrow> replace_first c s = s"
  by (induction s) auto

lemma replace_first_snoc: "c \<notin> set s \<Longrightarrow> replace_first c (s @ [c]) = s"
  by (induction s) auto

lemma replace_first_stripTrailingUnit:
  assumes "CHR ''p'' \<notin> set (butlast s)"
  shows "replace_first CHR ''p'' s = stripTrailingUnit s"
proof (cases s rule: rev_cases)
  case Nil
  then show ?thesis by (simp add: stripTrailingUnit_def)
next
  case (snoc ys y)
  with assms have ys: "CHR ''p'' \<notin> set ys" by simp
  show ?thesis
  proof (cases "y = CHR ''p''")
    case True
    with snoc ys show ?thesis
      by (simp add: stripTrailingUnit_def replace_first_snoc)
  next
    case False
    with ys have "CHR ''p'' \<notin> set (ys @ [y])" by simp
    then have "replace_first CHR ''p'' (ys @ [y]) = ys @ [y]"
      by (rule replace_first_absent)
    with snoc False show ?thesis
      by (simp add: stripTrailingUnit_def)
  qed
qed

lemma stripTrailingUnit_examples:
  "stripTrailingUnit ''abc'' = ''abc''" "stripTrailingUnit ''720p'' = ''720''"
  "stripTrailingUnit ''xp'' = ''x''" "stripTrailingUnit ''1080p'' = ''1080''"
  "stripTrailingUnit ''10p80p'' = ''10p80''"
  by (simp_all add: stripTrailingUnit_def)

section \<open>The pattern matcher and the Magnet Parser\<close>

lemma match_group_skip:
  "\<not> (take (length lit) (c # cs) = lit \<and> takeWhile cls (drop (length lit) (c # cs)) \<noteq> []) \<Longrightarrow>
   match_group lit cls (c # cs) = match_group lit cls cs"
  by (simp only: match_group.simps if_False)

lemma match_group_None:
  assumes "\<And>pre c rest. s = pre @ lit @ c # rest \<Longrightarrow> \<not> cls c"
  shows "match_group lit cls s = None"
  using assms
proof (induction s)
  case Nil
  then show ?case by simp
next
  case (Cons x xs)
  have here: "\<not> (take (length lit) (x # xs) = lit \<and>
                 takeWhile cls (drop (length lit) (x # xs)) \<noteq> [])"
  proof
    assume a: "take (length lit) (x # xs) = lit \<and>
               takeWhile cls (drop (length lit) (x # xs)) \<noteq> []"
    then obtain c rest where d: "drop (length lit) (x # xs) = c # rest" and c: "cls c"
      by (cases "drop (length lit) (x # xs)") (auto split: if_splits)
    have "x # xs = take (length lit) (x # xs) @ drop (length lit) (x # xs)"
      by (simp only: append_take_drop_id)
    with a d have "x # xs = [] @ lit @ c # rest" by simp
    from Cons.prems [OF this] c show False by simp
  qed
  have "match_group lit cls xs = None"
  proof (rule Cons.IH)
    fix pre c rest
    assume "xs = pre @ lit @ c # rest"
    then have "x # xs = (x # pre) @ lit @ c # rest" by simp
    then show "\<not> cls c" by (rule Cons.prems)
  qed
  with here show ?case by simp
qed

lemma takeWhile_token:
  assumes "\<forall>c\<in>set tok. cls c" and "rest = [] \<or> \<not> cls (hd rest)"
  shows "takeWhile cls (tok @ rest) = tok"
proof -
  have "takeWhile cls rest = []"
    using assms(2) by (cases rest) auto
  with assms(1) show ?thesis
    by (simp add: takeWhile_append2)
qed

lemma match_group_Some:
  assumes "tok \<noteq> []" and "\<forall>c\<in>set tok. cls c" and "rest = [] \<or> \<not> cls (hd rest)"
    and "\<And>pre' c r. length pre' < length pre \<Longrightarrow>
           pre @ lit @ tok @ rest = pre' @ lit @ c # r \<Longrightarrow> \<not> cls c"
  shows "match_group lit cls (pre @ lit @ tok @ rest) = Some tok"
  using assms(4)
proof (induction pre)
  case Nil
  obtain c cs where s: "lit @ tok @ rest = c # cs"
    using assms(1) by (cases "lit @ tok @ rest") auto
  have "take (length lit) (lit @ tok @ rest) = lit"
       "drop (length lit) (lit @ tok @ rest) = tok @ rest"
    by simp_all
  moreover have "takeWhile cls (tok @ rest) = tok"
    using assms(2,3) by (rule takeWhile_token)
  ultimately have "match_group lit cls (c # cs) = Some tok"
    using assms(1) s by (simp del: take_append drop_append)
  with s show ?case by simp
next
  case (Cons p ps)
  let ?s = "ps @ lit @ tok @ rest"
  have here: "\<not> (take (length lit) (p # ?s) = lit \<and>
                 takeWhile cls (drop (length lit) (p # ?s)) \<noteq> [])"
  proof
    assume a: "take (length lit) (p # ?s) = lit \<and>
               takeWhile cls (drop (length lit) (p # ?s)) \<noteq> []"
    then obtain c r where d: "drop (length lit) (p # ?s) = c # r" and c: "cls c"
      by (cases "drop (length lit) (p # ?s)") (auto split: if_splits)
    have "p # ?s = take (length lit) (p # ?s) @ drop (length lit) (p # ?s)"
      by (simp only: append_take_drop_id)
    with a d have "(p # ps) @ lit @ tok @ rest = [] @ lit @ c # r" by simp
    from Cons.prems [OF _ this] c show False by simp
  qed
  have "match_group lit cls ?s = Some tok"
  proof (rule Cons.IH)
    fix pre' c r
    assume l: "length pre' < length ps" and e: "?s = pre' @ lit @ c # r"
    from l have "length (p # pre') < length (p # ps)" by simp
    moreover from e have "(p # ps) @ lit @ tok @ rest = (p # pre') @ lit @ c # r" by simp
    ultimately show "\<not> cls c" by (rule Cons.prems)
  qed
  with match_group_skip [OF here] show ?case by simp
qed

lemma match_group_sound:
  "match_group lit cls s = Some tok \<Longrightarrow>
   tok \<noteq> [] \<and> (\<forall>c\<in>set tok. cls c) \<and>
   (\<exists>pre rest. s = pre @ lit @ tok @ rest \<and> (rest = [] \<or> \<not> cls (hd rest)))"
proof (induction s)
  case Nil
  then show ?case by simp
next
  case (Cons x xs)
  show ?case
  proof (cases "take (length lit) (x # xs) = lit \<and>
                takeWhile cls (drop (length lit) (x # xs)) \<noteq> []")
    case True
    let ?d = "drop (length lit) (x # xs)"
    from True Cons.prems have tok: "tok = takeWhile cls ?d" by simp
    have "x # xs = take (length lit) (x # xs) @ takeWhile cls ?d @ dropWhile cls ?d"
      by (simp only: takeWhile_dropWhile_id append_take_drop_id)
    with True tok have "x # xs = [] @ lit @ tok @ dropWhile cls ?d" by simp
    moreover have "dropWhile cls ?d = [] \<or> \<not> cls (hd (dropWhile cls ?d))"
      using hd_dropWhile by blast
    ultimately have "\<exists>pre rest. x # xs = pre @ lit @ tok @ rest \<and>
                       (rest = [] \<or> \<not> cls (hd rest))"
      by blast
    moreover have "tok \<noteq> []" using True tok by simp
    moreover have "\<forall>c\<in>set tok. cls c"
      using tok by (auto dest: set_takeWhileD)
    ultimately show ?thesis by blast
  next
    case False
    with Cons.prems have "match_group lit cls xs = Some tok" by auto
    from Cons.IH [OF this] obtain pre rest where
      "tok \<noteq> []" "\<forall>c\<in>set tok. cls c" "xs = pre @ lit @ tok @ rest"
      "rest = [] \<or> \<not> cls (hd rest)" by blast
    then have "x # xs = (x # pre) @ lit @ tok @ rest" by simp
    with \<open>tok \<noteq> []\<close> \<open>\<forall>c\<in>set tok. cls c\<close> \<open>rest = [] \<or> \<not> cls (hd rest)\<close>
    show ?thesis by blast
  qed
qed

lemma match_group_None_iff:
  "match_group lit cls s = None \<longleftrightarrow> \<not> (\<exists>pre c rest. s = pre @ lit @ c # rest \<and> cls c)"
proof
  assume n: "match_group lit cls s = None"
  show "\<not> (\<exists>pre c rest. s = pre @ lit @ c # rest \<and> cls c)"
  proof
    assume "\<exists>pre c rest. s = pre @ lit @ c # rest \<and> cls c"
    then obtain pre c rest where s: "s = pre @ lit @ c # rest" and c: "cls c" by blast
    have "match_group lit cls (pre @ lit @ c # rest) \<noteq> None"
    proof (induction pre)
      case Nil
      obtain y ys where e: "lit @ c # rest = y # ys" by (cases "lit @ c # rest") auto
      have "take (length lit) (lit @ c # rest) = lit"
           "takeWhile cls (drop (length lit) (lit @ c # rest)) \<noteq> []"
        using c by simp_all
      then have "match_group lit cls (y # ys) \<noteq> None"
        unfolding e [symmetric] by (simp del: take_append drop_append add: e)
      with e show ?case by simp
    next
      case (Cons p ps)
      then show ?case by simp
    qed
    with n s show False by simp
  qed
next
  assume "\<not> (\<exists>pre c rest. s = pre @ lit @ c # rest \<and> cls c)"
  then show "match_group lit cls s = None"
    by (intro match_group_None) blast
qed

lemma isDigit_not_space_sign:
  "isDigit c \<Longrightarrow> \<not> isWhiteSpace c \<and> c \<noteq> CHR ''+'' \<and> c \<noteq> CHR ''-''"
  by (auto simp: isDigit_def isWhiteSpace_def)

lemma parseInt_digits:
  assumes "tok \<noteq> []" and "\<forall>c\<in>set tok. isDigit c"
  shows "parseInt tok = toNumber (int (decimalValue tok))"
proof -
  obtain c cs where tok: "tok = c # cs" using assms(1) by (cases tok) auto
  with assms(2) have c: "isDigit c" by simp
  then have d: "dropWhile isWhiteSpace tok = tok"
    using tok isDigit_not_space_sign by simp
  have t: "takeWhile isDigit tok = tok"
    using assms(2) by (simp add: takeWhile_eq_all_conv)
  show ?thesis
    using c isDigit_not_space_sign [OF c] assms(1)
    by (simp add: parseInt_def Let_def d t) (simp add: tok)
qed

lemma toUpperCase_char_class:
  "isAlnum c \<Longrightarrow> isDigit (toUpperCase_char c) \<or> isUpper (toUpperCase_char c)"
  by (auto simp: isAlnum_def isDigit_def isUpper_def toUpperCase_char_def)

lemma getHashFromMagnet_class:
  "c \<in> set (getHashFromMagnet m) \<Longrightarrow> isDigit c \<or> isUpper c"
proof (cases "match_group ''btih:'' isAlnum m")
  case None
  assume "c \<in> set (getHashFromMagnet m)"
  with None show ?thesis by (simp add: getHashFromMagnet_def)
next
  case (Some tok)
  assume "c \<in> set (getHashFromMagnet m)"
  with Some obtain a where "a \<in> set tok" "c = toUpperCase_char a"
    by (auto simp: getHashFromMagnet_def toUpperCase_def)
  moreover from match_group_sound [OF Some] have "\<forall>c\<in>set tok. isAlnum c" by blast
  ultimately show ?thesis using toUpperCase_char_class by blast
qed

lemma magnet_hash_examples:
  "getHashFromMagnet ''magnet:?xt=urn:btih:ABCD1234&xl=1048576'' = ''ABCD1234''"
  "getHashFromMagnet ''magnet:?xt=urn:btih:'' = []"
  "getHashFromMagnet ''magnet:?xt=urn:btih:&dn=btih:c0ffee-1&xl=x&xl=42'' = ''C0FFEE''"
  by code_simp+

lemma magnet_size_examples:
  "getSizeFromMagnet ''magnet:?xt=urn:btih:ABCD1234&xl=1048576'' = Finite 1048576"
  "getSizeFromMagnet ''magnet:?xt=urn:btih:'' = Finite 0"
  "getSizeFromMagnet ''magnet:?xt=urn:btih:&dn=btih:c0ffee-1&xl=x&xl=42'' = Finite 42"
  by (simp_all add: getSizeFromMagnet_def parseInt_def isWhiteSpace_def isDigit_def
        decimalValue_def digitValue_def toNumber_small)

lemma roundToDouble_examples:
  "roundToDouble 9007199254740993 = Some 9007199254740992"
  "roundToDouble 9007199254740995 = Some 9007199254740996"
  by (simp_all add: roundToDouble_def binaryExponent.simps Let_def)

lemma magnet_size_rounded:
  "decimalValue ''9007199254740993'' = 9007199254740993"
  "getSizeFromMagnet ''magnet:?xt=urn:btih:ABCD1234&xl=9007199254740993'' =
     Finite 9007199254740992"
  "decimalValue ''9007199254740995'' = 9007199254740995"
  "getSizeFromMagnet ''magnet:?xt=urn:btih:ABCD1234&xl=9007199254740995'' =
     Finite 9007199254740996"
  by (simp_all add: getSizeFromMagnet_def parseInt_def isWhiteSpace_def isDigit_def
        decimalValue_def digitValue_def toNumber_def roundToDouble_examples)

lemma binaryExponent_bound: "n div 2 ^ binaryExponent n < 9007199254740992"
proof (induction n rule: binaryExponent.induct)
  case (1 n)
  show ?case
  proof (cases "n < 9007199254740992")
    case True
    then show ?thesis by (simp add: binaryExponent.simps [of n])
  next
    case False
    have "n div 2 ^ Suc (binaryExponent (n div 2)) = n div 2 div 2 ^ binaryExponent (n div 2)"
      by (simp add: div_mult2_eq)
    with 1 [OF False] False show ?thesis by (simp add: binaryExponent.simps [of n])
  qed
qed

lemma roundToDouble_nearest:
  assumes "roundToDouble n = Some v"
  shows "2 * \<bar>int v - int n\<bar> \<le> 2 ^ binaryExponent n"
    and "\<exists>q. v = q * 2 ^ binaryExponent n \<and> q \<le> 9007199254740992"
proof -
  define e where "e = binaryExponent n"
  define q where "q = n div 2 ^ e"
  define r where "r = n mod 2 ^ e"
  define q' where "q' = (if 2 ^ e < 2 * r \<or> (2 * r = 2 ^ e \<and> odd q) then q + 1 else q)"
  have "roundToDouble n = (if 2 ^ 1024 \<le> q' * 2 ^ e then None else Some (q' * 2 ^ e))"
    unfolding roundToDouble_def Let_def q'_def q_def r_def e_def by (rule refl)
  with assms have v: "v = q' * 2 ^ e"
    by (simp split: if_splits)
  have n: "n = q * 2 ^ e + r"
    unfolding q_def r_def by (rule div_mult_mod_eq [symmetric])
  have r: "r < 2 ^ e" by (simp add: r_def)
  have qb: "q < 9007199254740992"
    using binaryExponent_bound [of n] by (simp add: q_def e_def)
  define p where "p = (2::int) ^ e"
  have ip: "int (2 ^ e) = p" by (simp add: p_def)
  have rp: "int r < p" using r ip by linarith
  have vn: "int v = int q' * p" "int n = int q * p + int r"
    using v n ip by (simp_all flip: ip)
  have "2 * \<bar>int v - int n\<bar> \<le> p"
  proof (cases "2 ^ e < 2 * r \<or> (2 * r = 2 ^ e \<and> odd q)")
    case True
    then have "int q' = int q + 1" by (simp add: q'_def)
    with vn have d: "int v - int n = p - int r" by (simp add: algebra_simps)
    from True have "2 ^ e \<le> 2 * r" by linarith
    then have "int (2 ^ e) \<le> int (2 * r)" by (simp only: of_nat_le_iff)
    then have pr: "p \<le> 2 * int r" using ip by simp
    from d rp have "\<bar>int v - int n\<bar> = p - int r" by simp
    moreover from pr have "2 * (p - int r) \<le> p" by (simp add: algebra_simps)
    ultimately show ?thesis by simp
  next
    case False
    then have "int q' = int q" by (simp add: q'_def)
    with vn have d: "int v - int n = - int r" by (simp add: algebra_simps)
    from False have "2 * r \<le> 2 ^ e" by linarith
    then have "int (2 * r) \<le> int (2 ^ e)" by (simp only: of_nat_le_iff)
    then have pr: "2 * int r \<le> p" using ip by simp
    from d have "\<bar>int v - int n\<bar> = int r" by simp
    with pr show ?thesis by simp
  qed
  then show "2 * \<bar>int v - int n\<bar> \<le> 2 ^ binaryExponent n"
    by (simp add: p_def e_def)
  have "q' \<le> 9007199254740992" using qb by (simp add: q'_def)
  with v show "\<exists>q. v = q * 2 ^ binaryExponent n \<and> q \<le> 9007199254740992"
    unfolding e_def by blast
qed

lemma no_earlier_match:
  assumes "match_group lit cls (pre @ lit) = None"
    and "length pre' < length pre" and "pre @ lit @ suffix = pre' @ lit @ c # r"
  shows "\<not> cls c"
proof
  assume c: "cls c"
  let ?n = "length pre + length lit"
  have "take ?n (pre @ lit @ suffix) = pre @ lit" by simp
  moreover have "take ?n (pre' @ lit @ c # r) =
                 pre' @ lit @ c # take (length pre - length pre' - 1) r"
    using assms(2) by (simp add: take_Cons')
  ultimately have "pre @ lit = pre' @ lit @ c # take (length pre - length pre' - 1) r"
    using assms(3) by simp
  with c have "\<exists>p x q. pre @ lit = p @ lit @ x # q \<and> cls x" by blast
  with assms(1) show False unfolding match_group_None_iff by blast
qed

lemma getSizeFromMagnet_nonneg:
  "getSizeFromMagnet m \<noteq> NaN \<and> getSizeFromMagnet m \<noteq> MinusInfinity \<and>
   (\<forall>n. getSizeFromMagnet m = Finite n \<longrightarrow> 0 \<le> n)"
proof (cases "match_group ''xl='' isDigit m")
  case None
  then show ?thesis by (simp add: getSizeFromMagnet_def)
next
  case (Some tok)
  from match_group_sound [OF Some] have "tok \<noteq> []" "\<forall>c\<in>set tok. isDigit c" by blast+
  then have "parseInt tok = toNumber (int (decimalValue tok))" by (rule parseInt_digits)
  with Some toNumber_nonneg [of "int (decimalValue tok)"]
       toNumber_not_NaN [of "int (decimalValue tok)"]
  show ?thesis by (simp add: getSizeFromMagnet_def)
qed

section \<open>Time values and their ISO 8601 strings\<close>

lemma div_bounds:
  fixes x k :: int
  assumes "0 < k"
  shows "k * (x div k) \<le> x" and "x \<le> k * (x div k) + (k - 1)"
proof -
  have "x = k * (x div k) + x mod k" by simp
  moreover have "0 \<le> x mod k" "x mod k < k" using assms by simp_all
  ultimately show "k * (x div k) \<le> x" and "x \<le> k * (x div k) + (k - 1)" by linarith+
qed

lemma DayFromYear_bounds:
  "146097 * y - 287811596 \<le> 400 * DayFromYear y"
  "400 * DayFromYear y \<le> 146097 * y - 287810501"
proof -
  define a where "a = (y - 1969) div 4"
  define b where "b = (y - 1901) div 100"
  define c where "c = (y - 1601) div 400"
  have a: "4 * a \<le> y - 1969" "y - 1969 \<le> 4 * a + 3"
    using div_bounds [of 4 "y - 1969"] by (simp_all add: a_def)
  have b: "100 * b \<le> y - 1901" "y - 1901 \<le> 100 * b + 99"
    using div_bounds [of 100 "y - 1901"] by (simp_all add: b_def)
  have c: "400 * c \<le> y - 1601" "y - 1601 \<le> 400 * c + 399"
    using div_bounds [of 400 "y - 1601"] by (simp_all add: c_def)
  have d: "400 * DayFromYear y = 146000 * y - 287620000 + 400 * a - 400 * b + 400 * c"
    by (simp add: DayFromYear_def a_def b_def c_def)
  show "146097 * y - 287811596 \<le> 400 * DayFromYear y"
    using a b c d by linarith
  show "400 * DayFromYear y \<le> 146097 * y - 287810501"
    using a b c d by linarith
qed

lemma YearFromTime_correct:
  "DayFromYear (YearFromTime t) \<le> Day t \<and> Day t < DayFromYear (YearFromTime t + 1)"
proof -
  define d where "d = Day t"
  define q where "q = (400 * d) div 146097"
  define yl where "yl = 1970 + q - 1"
  define yh where "yh = 1970 + q + 1 + 1"
  have q: "146097 * q \<le> 400 * d" "400 * d \<le> 146097 * q + 146096"
    using div_bounds [of 146097 "400 * d"] by (simp_all add: q_def)
  have lo: "DayFromYear yl \<le> d"
    using DayFromYear_bounds(2) [of yl] q yl_def by linarith
  have hi: "d < DayFromYear yh"
    using DayFromYear_bounds(1) [of yh] q yh_def by linarith
  have y: "YearFromTime t =
             (if d < DayFromYear (1970 + q) then 1970 + q - 1
              else if DayFromYear (1970 + q + 1) \<le> d then 1970 + q + 1
              else 1970 + q)"
    by (simp add: YearFromTime_def Let_def d_def q_def)
  show ?thesis
    unfolding d_def [symmetric] y using lo hi unfolding yl_def yh_def by auto
qed

lemma div_Suc_int:
  fixes x k :: int
  assumes "0 < k"
  shows "(x + 1) div k = (if (x + 1) mod k = 0 then x div k + 1 else x div k)"
proof (cases "(x + 1) mod k = 0")
  case True
  then have "x + 1 = k * ((x + 1) div k)" by (simp add: mod_eq_0_iff_dvd)
  then have e: "x = k * ((x + 1) div k - 1) + (k - 1)" by (simp add: algebra_simps)
  have "x div k = (x + 1) div k - 1"
    by (rule int_div_pos_eq [OF e]) (use assms in simp_all)
  with True show ?thesis by simp
next
  case False
  have x: "x + 1 = k * ((x + 1) div k) + (x + 1) mod k" by simp
  have "0 \<le> (x + 1) mod k" "(x + 1) mod k < k" using assms by simp_all
  with False have r: "0 \<le> (x + 1) mod k - 1" "(x + 1) mod k - 1 < k" by linarith+
  from x have e: "x = k * ((x + 1) div k) + ((x + 1) mod k - 1)" by linarith
  have "x div k = (x + 1) div k"
    by (rule int_div_pos_eq [OF e r])
  with False show ?thesis by simp
qed

lemma mod_shift:
  fixes y :: int
  shows "(y - 1968) mod 4 = y mod 4" "(y - 1900) mod 100 = y mod 100"
    "(y - 1600) mod 400 = y mod 400"
  using mod_mult_self2 [of y 4 "- 492"] mod_mult_self2 [of y 100 "- 19"]
    mod_mult_self2 [of y 400 "- 4"]
  by simp_all

lemma mod_400_100_4:
  fixes y :: int
  shows "y mod 400 = 0 \<Longrightarrow> y mod 100 = 0" "y mod 100 = 0 \<Longrightarrow> y mod 4 = 0"
proof -
  have "(100::int) dvd 400" "(4::int) dvd 100" by simp_all
  then show "y mod 400 = 0 \<Longrightarrow> y mod 100 = 0" "y mod 100 = 0 \<Longrightarrow> y mod 4 = 0"
    by (auto simp: mod_eq_0_iff_dvd elim: dvd_trans)
qed

lemma DayFromYear_step: "DayFromYear (y + 1) = DayFromYear y + DaysInYear y"
proof -
  have a: "(y - 1968) div 4 = (if y mod 4 = 0 then (y - 1969) div 4 + 1 else (y - 1969) div 4)"
    using div_Suc_int [of 4 "y - 1969"] by (simp add: mod_shift)
  have b: "(y - 1900) div 100 =
           (if y mod 100 = 0 then (y - 1901) div 100 + 1 else (y - 1901) div 100)"
    using div_Suc_int [of 100 "y - 1901"] by (simp add: mod_shift)
  have c: "(y - 1600) div 400 =
           (if y mod 400 = 0 then (y - 1601) div 400 + 1 else (y - 1601) div 400)"
    using div_Suc_int [of 400 "y - 1601"] by (simp add: mod_shift)
  have d: "DayFromYear (y + 1) =
             365 * (y - 1970) + 365 + (y - 1968) div 4 - (y - 1900) div 100 + (y - 1600) div 400"
    by (simp add: DayFromYear_def)
  have e: "DayFromYear y =
             365 * (y - 1970) + (y - 1969) div 4 - (y - 1901) div 100 + (y - 1601) div 400"
    by (simp only: DayFromYear_def)
  show ?thesis
    unfolding d e a b c DaysInYear_def
    using mod_400_100_4 [of y] by auto
qed

lemma DayWithinYear_range:
  "0 \<le> DayWithinYear t \<and> DayWithinYear t < DaysInYear (YearFromTime t)"
  using YearFromTime_correct [of t] DayFromYear_step [of "YearFromTime t"]
  by (simp add: DayWithinYear_def)

lemma DaysInYear_cases: "DaysInYear y = 365 \<or> DaysInYear y = 366"
  by (simp add: DaysInYear_def)

lemma InLeapYear_cases:
  "InLeapYear t = 0 \<and> DaysInYear (YearFromTime t) = 365 \<or>
   InLeapYear t = 1 \<and> DaysInYear (YearFromTime t) = 366"
  using DaysInYear_cases [of "YearFromTime t"] by (auto simp: InLeapYear_def)

lemma MonthFromTime_range: "0 \<le> MonthFromTime t \<and> MonthFromTime t \<le> 11"
  by (simp add: MonthFromTime_def Let_def)

lemma leap_iff:
  "DaysInYear y = 366 \<longleftrightarrow> y mod 4 = 0 \<and> (y mod 100 \<noteq> 0 \<or> y mod 400 = 0)"
  using mod_400_100_4 [of y] by (auto simp: DaysInYear_def)

lemma DateFromTime_range:
  "1 \<le> DateFromTime t \<and>
   DateFromTime t \<le> int (daysInMonth (YearFromTime t) (nat (MonthFromTime t + 1)))"
proof -
  define d where "d = DayWithinYear t"
  define l where "l = InLeapYear t"
  define y where "y = YearFromTime t"
  have d: "0 \<le> d" "d < 365 + l" and l: "l = 0 \<or> l = 1"
    using DayWithinYear_range [of t] InLeapYear_cases [of t]
    by (auto simp: d_def l_def)
  have leap: "l = 1 \<longleftrightarrow> y mod 4 = 0 \<and> (y mod 100 \<noteq> 0 \<or> y mod 400 = 0)"
    using leap_iff [of y] by (simp add: l_def y_def InLeapYear_def)
  have m: "MonthFromTime t =
      (if d < 31 then 0 else if d < 59 + l then 1 else if d < 90 + l then 2
       else if d < 120 + l then 3 else if d < 151 + l then 4 else if d < 181 + l then 5
       else if d < 212 + l then 6 else if d < 243 + l then 7 else if d < 273 + l then 8
       else if d < 304 + l then 9 else if d < 334 + l then 10 else 11)"
    by (simp add: MonthFromTime_def Let_def d_def l_def)
  consider "d < 31" | "31 \<le> d" "d < 59 + l" | "59 + l \<le> d" "d < 90 + l"
    | "90 + l \<le> d" "d < 120 + l" | "120 + l \<le> d" "d < 151 + l"
    | "151 + l \<le> d" "d < 181 + l" | "181 + l \<le> d" "d < 212 + l"
    | "212 + l \<le> d" "d < 243 + l" | "243 + l \<le> d" "d < 273 + l"
    | "273 + l \<le> d" "d < 304 + l" | "304 + l \<le> d" "d < 334 + l" | "334 + l \<le> d"
    by linarith
  then show ?thesis
  proof cases
    case 1
    then have "MonthFromTime t = 0" by (simp add: m)
    with 1 d show ?thesis
      by (simp add: DateFromTime_def Let_def daysInMonth_def d_def [symmetric])
  next
    case 2
    with l have mm: "MonthFromTime t = 1" by (auto simp: m)
    with 2 d l leap show ?thesis
      by (auto simp: DateFromTime_def Let_def daysInMonth_def d_def [symmetric] y_def [symmetric])
  next
    case 3
    with l have mm: "MonthFromTime t = 2" by (auto simp: m)
    with 3 d l show ?thesis
      by (auto simp: DateFromTime_def Let_def daysInMonth_def d_def [symmetric] l_def [symmetric])
  next
    case 4
    with l have mm: "MonthFromTime t = 3" by (auto simp: m)
    with 4 d l show ?thesis
      by (auto simp: DateFromTime_def Let_def daysInMonth_def d_def [symmetric] l_def [symmetric])
  next
    case 5
    with l have mm: "MonthFromTime t = 4" by (auto simp: m)
    with 5 d l show ?thesis
      by (auto simp: DateFromTime_def Let_def daysInMonth_def d_def [symmetric] l_def [symmetric])
  next
    case 6
    with l have mm: "MonthFromTime t = 5" by (auto simp: m)
    with 6 d l show ?thesis
      by (auto simp: DateFromTime_def Let_def daysInMonth_def d_def [symmetric] l_def [symmetric])
  next
    case 7
    with l have mm: "MonthFromTime t = 6" by (auto simp: m)
    with 7 d l show ?thesis
      by (auto simp: DateFromTime_def Let_def daysInMonth_def d_def [symmetric] l_def [symmetric])
  next
    case 8
    with l have mm: "MonthFromTime t = 7" by (auto simp: m)
    with 8 d l show ?thesis
      by (auto simp: DateFromTime_def Let_def daysInMonth_def d_def [symmetric] l_def [symmetric])
  next
    case 9
    with l have mm: "MonthFromTime t = 8" by (auto simp: m)
    with 9 d l show ?thesis
      by (auto simp: DateFromTime_def Let_def daysInMonth_def d_def [symmetric] l_def [symmetric])
  next
    case 10
    with l have mm: "MonthFromTime t = 9" by (auto simp: m)
    with 10 d l show ?thesis
      by (auto simp: DateFromTime_def Let_def daysInMonth_def d_def [symmetric] l_def [symmetric])
  next
    case 11
    with l have mm: "MonthFromTime t = 10" by (auto simp: m)
    with 11 d l show ?thesis
      by (auto simp: DateFromTime_def Let_def daysInMonth_def d_def [symmetric] l_def [symmetric])
  next
    case 12
    with l have mm: "MonthFromTime t = 11" by (auto simp: m)
    with 12 d l show ?thesis
      by (auto simp: DateFromTime_def Let_def daysInMonth_def d_def [symmetric] l_def [symmetric])
  qed
qed

lemma time_fields_range:
  "0 \<le> HourFromTime t \<and> HourFromTime t \<le> 23"
  "0 \<le> MinFromTime t \<and> MinFromTime t \<le> 59"
  "0 \<le> SecFromTime t \<and> SecFromTime t \<le> 59"
  "0 \<le> msFromTime t \<and> msFromTime t \<le> 999"
  by (simp_all add: HourFromTime_def MinFromTime_def SecFromTime_def msFromTime_def)

lemma Day_range:
  assumes "timeInRange t"
  shows "- 100000001 < Day t \<and> Day t \<le> 100000000"
proof -
  have "86400000 * Day t \<le> t" "t \<le> 86400000 * Day t + 86399999"
    using div_bounds [of 86400000 t] by (simp_all add: Day_def msPerDay_def)
  with assms show ?thesis by (simp add: timeInRange_def) linarith
qed

lemma YearFromTime_range:
  assumes "timeInRange t"
  shows "- 1000000 < YearFromTime t \<and> YearFromTime t < 1000000"
proof -
  define y where "y = YearFromTime t"
  define z where "z = y + 1"
  have c: "DayFromYear y \<le> Day t" "Day t < DayFromYear z"
    using YearFromTime_correct [of t] by (simp_all add: y_def z_def)
  have d: "- 100000001 < Day t" "Day t \<le> 100000000"
    using Day_range [OF assms] by simp_all
  have "y < 1000000"
    using DayFromYear_bounds(1) [of y] c(1) d(2) by linarith
  moreover have "- 1000000 < y"
    using DayFromYear_bounds(2) [of z] c(2) d(1) z_def by linarith
  ultimately show ?thesis by (simp add: y_def)
qed

lemma digit_char:
  assumes "k < 10"
  shows "isDigit (''0123456789'' ! k)" and "digitValue (''0123456789'' ! k) = k"
proof -
  from assms have "k \<in> {0, 1, 2, 3, 4, 5, 6, 7, 8, 9}" by auto
  then show "isDigit (''0123456789'' ! k)" and "digitValue (''0123456789'' ! k) = k"
    by (auto simp: isDigit_def digitValue_def)
qed

lemma decimalValue_snoc: "decimalValue (xs @ [c]) = 10 * decimalValue xs + digitValue c"
  by (simp add: decimalValue_def)

lemma digits_props:
  "digits n \<noteq> [] \<and> list_all isDigit (digits n) \<and> decimalValue (digits n) = n"
proof (induction n rule: digits.induct)
  case (1 n)
  show ?case
  proof (cases "n < 10")
    case True
    then show ?thesis
      using digit_char [of n] by (simp add: digits.simps [of n] decimalValue_def)
  next
    case False
    have "n mod 10 < 10" by simp
    from digit_char [OF this] 1 [OF False] False show ?thesis
      by (simp add: digits.simps [of n] decimalValue_snoc)
  qed
qed

lemma length_digits: "0 < w \<Longrightarrow> n < 10 ^ w \<Longrightarrow> length (digits n) \<le> w"
proof (induction n arbitrary: w rule: digits.induct)
  case (1 n)
  show ?case
  proof (cases "n < 10")
    case True
    with 1(2) show ?thesis by (simp add: digits.simps [of n])
  next
    case False
    obtain v where w: "w = Suc v" using 1(2) by (cases w) auto
    with False 1(3) have "0 < v"
      by (cases v) auto
    moreover from w 1(3) have "n div 10 < 10 ^ v"
      by (simp add: less_mult_imp_div_less mult.commute)
    ultimately have "length (digits (n div 10)) \<le> v"
      using 1(1) [OF False] by blast
    with False w show ?thesis by (simp add: digits.simps [of n])
  qed
qed

lemma decimalValue_zeros: "decimalValue (replicate k CHR ''0'' @ s) = decimalValue s"
proof -
  have "foldl (\<lambda>acc c. 10 * acc + digitValue c) 0 (replicate k CHR ''0'') = 0"
    by (induction k) (simp_all add: digitValue_def)
  then show ?thesis by (simp add: decimalValue_def)
qed

lemma pad_props:
  assumes "0 < w" and "0 \<le> n" and "n < 10 ^ w"
  shows "length (pad w n) = w" and "digitsValue (pad w n) = Some (nat n)"
proof -
  have "nat n < 10 ^ w" using assms(2,3)
    by (metis nat_less_iff of_nat_numeral of_nat_power)
  then have l: "length (digits (nat n)) \<le> w"
    using assms(1) by (intro length_digits)
  then show "length (pad w n) = w"
    by (simp add: pad_def padStart_def)
  have z: "isDigit CHR ''0''" by (simp add: isDigit_def)
  show "digitsValue (pad w n) = Some (nat n)"
    using digits_props [of "nat n"] z
    by (auto simp: digitsValue_def pad_def padStart_def decimalValue_zeros list_all_iff)
qed

lemma isoYear_value:
  assumes "- 1000000 < y" and "y < 1000000"
  shows "isoYearValue (isoYear y) = Some y"
proof -
  consider "0 \<le> y" "y \<le> 9999" | "y < 0" | "9999 < y" by linarith
  then show ?thesis
  proof cases
    case 1
    then have "length (pad 4 y) = 4" "digitsValue (pad 4 y) = Some (nat y)"
      by (simp_all add: pad_props)
    with 1 show ?thesis by (simp add: isoYear_def isoYearValue_def)
  next
    case 2
    with assms have "length (pad 6 (- y)) = 6" "digitsValue (pad 6 (- y)) = Some (nat (- y))"
      by (simp_all add: pad_props)
    with 2 show ?thesis by (simp add: isoYear_def isoYearValue_def)
  next
    case 3
    with assms have "length (pad 6 y) = 6" "digitsValue (pad 6 y) = Some (nat y)"
      by (simp_all add: pad_props)
    with 3 show ?thesis by (simp add: isoYear_def isoYearValue_def)
  qed
qed

lemma daysInMonth_le: "daysInMonth y m \<le> 31"
  by (simp add: daysInMonth_def)

lemma length2E:
  assumes "length xs = 2"
  obtains a b where "xs = [a, b]"
  using assms by (cases xs; cases "tl xs") auto

lemma length3E:
  assumes "length xs = 3"
  obtains a b c where "xs = [a, b, c]"
  using assms by (cases xs; cases "tl xs"; cases "tl (tl xs)") auto

lemma new_Date_in_range: "new_Date h s = Some tv \<Longrightarrow> timeInRange tv"
  by (auto simp: new_Date_def TimeClip_def split: option.splits if_splits)

lemma toISOString_examples:
  "toISOString 1704067200000 = ''2024-01-01T00:00:00.000Z''"
  "toISOString 1800000000000 = ''2027-01-15T08:00:00.000Z''"
  by code_simp+

lemma ex_host_dates:
  "new_Date (ex_host data) ''2024-01-01T00:00:00Z'' = Some 1704067200000"
  "new_Date (ex_host data) [] = None"
  "new_Date (ex_host data) ''yesterday'' = None"
  "clock (ex_host data) 0 = 1800000000000"
  by (simp_all add: new_Date_def ex_host_def ex_Date_parse_def TimeClip_def timeInRange_def)

section \<open>Reading an ISO 8601 string back\<close>

text \<open>
  \<^const>\<open>instantOfISO8601\<close> counts days from the calendar fields with its own formulas;
  they agree with the day arithmetic of \<^const>\<open>toISOString\<close>, so that reading back the
  string of a time value gives that time value.
\<close>

lemma div_add_multiple:
  fixes x k c :: int
  shows "k \<noteq> 0 \<Longrightarrow> (x + k * c) div k = x div k + c"
  by simp

lemma daysBeforeYear_eq: "daysBeforeYear y = DayFromYear y"
proof -
  have a: "(y - 1) div 4 = (y - 1969) div 4 + 492"
    using div_add_multiple [of 4 "y - 1969" 492] by simp
  have b: "(y - 1) div 100 = (y - 1901) div 100 + 19"
    using div_add_multiple [of 100 "y - 1901" 19] by simp
  have c: "(y - 1) div 400 = (y - 1601) div 400 + 4"
    using div_add_multiple [of 400 "y - 1601" 4] by simp
  show ?thesis
    unfolding daysBeforeYear_def DayFromYear_def a b c by simp
qed

lemma daysBeforeMonth_table:
  "daysBeforeMonth y 1 = 0"
  "daysBeforeMonth y 2 = 31"
  "daysBeforeMonth y 3 = 31 + daysInMonth y 2"
  "daysBeforeMonth y 4 = 62 + daysInMonth y 2"
  "daysBeforeMonth y 5 = 92 + daysInMonth y 2"
  "daysBeforeMonth y 6 = 123 + daysInMonth y 2"
  "daysBeforeMonth y 7 = 153 + daysInMonth y 2"
  "daysBeforeMonth y 8 = 184 + daysInMonth y 2"
  "daysBeforeMonth y 9 = 215 + daysInMonth y 2"
  "daysBeforeMonth y 10 = 245 + daysInMonth y 2"
  "daysBeforeMonth y 11 = 276 + daysInMonth y 2"
  "daysBeforeMonth y 12 = 306 + daysInMonth y 2"
  by (simp_all add: daysBeforeMonth_def upt_rec daysInMonth_def)

lemma daysInFebruary:
  "int (daysInMonth (YearFromTime t) 2) = 28 + InLeapYear t"
  using leap_iff [of "YearFromTime t"] by (auto simp: daysInMonth_def InLeapYear_def)

lemma DayWithinYear_month_date:
  "DayWithinYear t =
   int (daysBeforeMonth (YearFromTime t) (nat (MonthFromTime t + 1))) + DateFromTime t - 1"
proof -
  define d where "d = DayWithinYear t"
  define l where "l = InLeapYear t"
  define y where "y = YearFromTime t"
  have d: "0 \<le> d" "d < 365 + l" and l: "l = 0 \<or> l = 1"
    using DayWithinYear_range [of t] InLeapYear_cases [of t]
    by (auto simp: d_def l_def)
  have f: "int (daysInMonth y 2) = 28 + l"
    using daysInFebruary [of t] by (simp add: y_def l_def)
  have m: "MonthFromTime t =
      (if d < 31 then 0 else if d < 59 + l then 1 else if d < 90 + l then 2
       else if d < 120 + l then 3 else if d < 151 + l then 4 else if d < 181 + l then 5
       else if d < 212 + l then 6 else if d < 243 + l then 7 else if d < 273 + l then 8
       else if d < 304 + l then 9 else if d < 334 + l then 10 else 11)"
    by (simp add: MonthFromTime_def Let_def d_def l_def)
  have dt: "DateFromTime t =
      (let m = MonthFromTime t
       in if m = 0 then d + 1 else if m = 1 then d - 30 else if m = 2 then d - 58 - l
          else if m = 3 then d - 89 - l else if m = 4 then d - 119 - l
          else if m = 5 then d - 150 - l else if m = 6 then d - 180 - l
          else if m = 7 then d - 211 - l else if m = 8 then d - 242 - l
          else if m = 9 then d - 272 - l else if m = 10 then d - 303 - l
          else d - 333 - l)"
    by (simp add: DateFromTime_def Let_def d_def l_def)
  note tb = daysBeforeMonth_table [of y]
  consider "d < 31" | "31 \<le> d" "d < 59 + l" | "59 + l \<le> d" "d < 90 + l"
    | "90 + l \<le> d" "d < 120 + l" | "120 + l \<le> d" "d < 151 + l"
    | "151 + l \<le> d" "d < 181 + l" | "181 + l \<le> d" "d < 212 + l"
    | "212 + l \<le> d" "d < 243 + l" | "243 + l \<le> d" "d < 273 + l"
    | "273 + l \<le> d" "d < 304 + l" | "304 + l \<le> d" "d < 334 + l" | "334 + l \<le> d"
    by linarith
  then have "d = int (daysBeforeMonth y (nat (MonthFromTime t + 1))) + DateFromTime t - 1"
  proof cases
    case 1
    then have "MonthFromTime t = 0" by (simp add: m)
    moreover have "daysBeforeMonth y (Suc 0) = 0" using tb(1) by simp
    ultimately show ?thesis by (simp add: dt)
  next
    case 2
    with l have "MonthFromTime t = 1" by (auto simp: m)
    then show ?thesis by (simp add: dt tb)
  next
    case 3
    with l have "MonthFromTime t = 2" by (auto simp: m)
    then show ?thesis using f by (simp add: dt tb)
  next
    case 4
    with l have "MonthFromTime t = 3" by (auto simp: m)
    then show ?thesis using f by (simp add: dt tb)
  next
    case 5
    with l have "MonthFromTime t = 4" by (auto simp: m)
    then show ?thesis using f by (simp add: dt tb)
  next
    case 6
    with l have "MonthFromTime t = 5" by (auto simp: m)
    then show ?thesis using f by (simp add: dt tb)
  next
    case 7
    with l have "MonthFromTime t = 6" by (auto simp: m)
    then show ?thesis using f by (simp add: dt tb)
  next
    case 8
    with l have "MonthFromTime t = 7" by (auto simp: m)
    then show ?thesis using f by (simp add: dt tb)
  next
    case 9
    with l have "MonthFromTime t = 8" by (auto simp: m)
    then show ?thesis using f by (simp add: dt tb)
  next
    case 10
    with l have "MonthFromTime t = 9" by (auto simp: m)
    then show ?thesis using f by (simp add: dt tb)
  next
    case 11
    with l have "MonthFromTime t = 10" by (auto simp: m)
    then show ?thesis using f by (simp add: dt tb)
  next
    case 12
    with l have "MonthFromTime t = 11" by (auto simp: m)
    then show ?thesis using f by (simp add: dt tb)
  qed
  then show ?thesis by (simp add: d_def y_def)
qed

lemma time_within_day:
  "t = Day t * 86400000 + HourFromTime t * 3600000 + MinFromTime t * 60000 +
       SecFromTime t * 1000 + msFromTime t"
proof -
  define a where "a = t div 1000"
  define b where "b = t div 60000"
  define c where "c = t div 3600000"
  define e where "e = t div 86400000"
  define r1 where "r1 = t mod 1000"
  define r2 where "r2 = a mod 60"
  define r3 where "r3 = b mod 60"
  define r4 where "r4 = c mod 24"
  have b: "b = a div 60" using zdiv_zmult2_eq [of 60 t 1000] by (simp add: a_def b_def)
  have c: "c = b div 60" using zdiv_zmult2_eq [of 60 t 60000] by (simp add: b_def c_def)
  have e: "e = c div 24" using zdiv_zmult2_eq [of 24 t 3600000] by (simp add: c_def e_def)
  have 1: "t = 1000 * a + r1" by (simp add: a_def r1_def)
  have 2: "a = 60 * b + r2" by (simp add: b r2_def)
  have 3: "b = 60 * c + r3" by (simp add: c r3_def)
  have 4: "c = 24 * e + r4" by (simp add: e r4_def)
  have "t = e * 86400000 + r4 * 3600000 + r3 * 60000 + r2 * 1000 + r1"
    using 1 2 3 4 by linarith
  then show ?thesis
    unfolding Day_def msPerDay_def HourFromTime_def MinFromTime_def SecFromTime_def
      msFromTime_def a_def b_def c_def e_def r1_def r2_def r3_def r4_def .
qed

lemma toISOString_valid_instant:
  assumes "timeInRange t"
  shows "validISO8601 (toISOString t) \<and> instantOfISO8601 (toISOString t) = Some t"
proof -
  define y where "y = YearFromTime t"
  define mo where "mo = MonthFromTime t + 1"
  define dd where "dd = DateFromTime t"
  have yv: "isoYearValue (isoYear y) = Some y"
    using YearFromTime_range [OF assms] by (simp add: isoYear_value y_def)
  have mo: "1 \<le> mo" "mo \<le> 12"
    using MonthFromTime_range [of t] by (simp_all add: mo_def)
  have dd: "1 \<le> dd" "dd \<le> int (daysInMonth y (nat mo))"
    using DateFromTime_range [of t] by (simp_all add: dd_def y_def mo_def)
  then have dd31: "dd \<le> 31"
    using daysInMonth_le [of y "nat mo"] by linarith
  note tf = time_fields_range [of t]
  have M: "length (pad 2 mo) = 2" "digitsValue (pad 2 mo) = Some (nat mo)"
    using mo by (simp_all add: pad_props)
  have D: "length (pad 2 dd) = 2" "digitsValue (pad 2 dd) = Some (nat dd)"
    using dd(1) dd31 by (simp_all add: pad_props)
  have H: "length (pad 2 (HourFromTime t)) = 2"
          "digitsValue (pad 2 (HourFromTime t)) = Some (nat (HourFromTime t))"
    using tf(1) by (simp_all add: pad_props)
  have Mi: "length (pad 2 (MinFromTime t)) = 2"
           "digitsValue (pad 2 (MinFromTime t)) = Some (nat (MinFromTime t))"
    using tf(2) by (simp_all add: pad_props)
  have S: "length (pad 2 (SecFromTime t)) = 2"
          "digitsValue (pad 2 (SecFromTime t)) = Some (nat (SecFromTime t))"
    using tf(3) by (simp_all add: pad_props)
  have Ms: "length (pad 3 (msFromTime t)) = 3"
           "digitsValue (pad 3 (msFromTime t)) = Some (nat (msFromTime t))"
    using tf(4) by (simp_all add: pad_props)
  obtain m1 m2 where m: "pad 2 mo = [m1, m2]" using M(1) by (rule length2E)
  obtain d1 d2 where d: "pad 2 dd = [d1, d2]" using D(1) by (rule length2E)
  obtain h1 h2 where h: "pad 2 (HourFromTime t) = [h1, h2]" using H(1) by (rule length2E)
  obtain i1 i2 where i: "pad 2 (MinFromTime t) = [i1, i2]" using Mi(1) by (rule length2E)
  obtain s1 s2 where s: "pad 2 (SecFromTime t) = [s1, s2]" using S(1) by (rule length2E)
  obtain z1 z2 z3 where z: "pad 3 (msFromTime t) = [z1, z2, z3]" using Ms(1) by (rule length3E)
  let ?r = "[CHR ''-'', m1, m2, CHR ''-'', d1, d2, CHR ''T'', h1, h2, CHR '':'', i1, i2,
             CHR '':'', s1, s2, CHR ''.'', z1, z2, z3, CHR ''Z'']"
  have str: "toISOString t = isoYear y @ ?r"
    by (simp add: toISOString_def y_def [symmetric] mo_def [symmetric] dd_def [symmetric]
          m d h i s z)
  have len: "length (toISOString t) - 20 = length (isoYear y)"
    by (simp add: str)
  have f1: "digitsValue [m1, m2] = Some (nat mo)"
    using M(2) by (simp add: m)
  have dd': "1 \<le> nat dd" "nat dd \<le> daysInMonth y (nat mo)"
    using dd by linarith+
  have f2: "fieldIn ?r 4 2 1 (daysInMonth y (nat mo))"
    using D(2) dd' by (simp add: d fieldIn_def)
  have tf': "nat (HourFromTime t) \<le> 23" "nat (MinFromTime t) \<le> 59"
    "nat (SecFromTime t) \<le> 59" "nat (msFromTime t) \<le> 999"
    using tf by linarith+
  have f3: "fieldIn ?r 7 2 0 23"
    using H(2) tf'(1) by (simp add: h fieldIn_def)
  have f4: "fieldIn ?r 10 2 0 59"
    using Mi(2) tf'(2) by (simp add: i fieldIn_def)
  have f5: "fieldIn ?r 13 2 0 59"
    using S(2) tf'(3) by (simp add: s fieldIn_def)
  have f6: "fieldIn ?r 16 3 0 999"
    using Ms(2) tf'(4) by (simp add: z fieldIn_def)
  have mo': "1 \<le> nat mo" "nat mo \<le> 12" using mo by simp_all
  have valid: "validISO8601 (toISOString t)"
    unfolding validISO8601_def Let_def len
    using f2 f3 f4 f5 f6 mo' by (simp add: str yv f1)
  have g: "fieldOf ?r 1 2 = nat mo" "fieldOf ?r 4 2 = nat dd"
    "fieldOf ?r 7 2 = nat (HourFromTime t)" "fieldOf ?r 10 2 = nat (MinFromTime t)"
    "fieldOf ?r 13 2 = nat (SecFromTime t)" "fieldOf ?r 16 3 = nat (msFromTime t)"
    using M(2) D(2) H(2) Mi(2) S(2) Ms(2) by (simp_all add: m d h i s z fieldOf_def)
  have g1: "fieldOf ?r (Suc 0) 2 = nat mo"
    using g(1) by simp
  have n: "0 \<le> dd" "0 \<le> HourFromTime t" "0 \<le> MinFromTime t" "0 \<le> SecFromTime t"
    "0 \<le> msFromTime t"
    using dd(1) tf by simp_all
  have w: "DayWithinYear t = int (daysBeforeMonth y (nat mo)) + dd - 1"
    using DayWithinYear_month_date [of t] by (simp add: y_def mo_def dd_def)
  have day: "daysBeforeYear y + int (daysBeforeMonth y (nat mo)) + dd - 1 = Day t"
    using w by (simp add: daysBeforeYear_eq DayWithinYear_def y_def)
  have "instantOfISO8601 (toISOString t) =
          Some ((daysBeforeYear y + int (daysBeforeMonth y (nat mo)) + dd - 1) * 86400000 +
                HourFromTime t * 3600000 + MinFromTime t * 60000 +
                SecFromTime t * 1000 + msFromTime t)"
    unfolding instantOfISO8601_def Let_def len
    using valid by (simp add: str yv g g1 n)
  also have "\<dots> = Some t"
    unfolding day using time_within_day [of t] by simp
  finally show ?thesis using valid by simp
qed

lemma toISOString_valid: "timeInRange t \<Longrightarrow> validISO8601 (toISOString t)"
  using toISOString_valid_instant by blast

lemma toISOString_instant: "timeInRange t \<Longrightarrow> instantOfISO8601 (toISOString t) = Some t"
  using toISOString_valid_instant by blast

section \<open>The failure message\<close>

lemma digits_inj: "digits a = digits b \<Longrightarrow> a = b"
  using digits_props [of a] digits_props [of b] by metis

lemma digits_no_sign: "digits n \<noteq> CHR ''-'' # s"
proof
  assume e: "digits n = CHR ''-'' # s"
  have "list_all isDigit (digits n)" using digits_props [of n] by simp
  with e have "isDigit CHR ''-''" by simp
  then show False by (simp add: isDigit_def)
qed

lemma String_int_inj: "String_int a = String_int b \<Longrightarrow> a = b"
proof -
  assume e: "String_int a = String_int b"
  consider "a < 0" "b < 0" | "a < 0" "0 \<le> b" | "0 \<le> a" "b < 0" | "0 \<le> a" "0 \<le> b"
    by linarith
  then show "a = b"
  proof cases
    case 1
    with e have "digits (nat (- a)) = digits (nat (- b))" by (simp add: String_int_def)
    then have "nat (- a) = nat (- b)" by (rule digits_inj)
    with 1 show ?thesis by simp
  next
    case 2
    with e have "digits (nat b) = CHR ''-'' # digits (nat (- a))" by (simp add: String_int_def)
    with digits_no_sign show ?thesis by blast
  next
    case 3
    with e have "digits (nat a) = CHR ''-'' # digits (nat (- b))" by (simp add: String_int_def)
    with digits_no_sign show ?thesis by blast
  next
    case 4
    with e have "digits (nat a) = digits (nat b)" by (simp add: String_int_def)
    then have "nat a = nat b" by (rule digits_inj)
    with 4 show ?thesis by simp
  qed
qed

lemma fetchFailure_inj: "fetchFailure a = fetchFailure b \<Longrightarrow> a = b"
  by (simp add: fetchFailure_def String_int_inj)

section \<open>The size as a Number\<close>

lemma toNumber_nearest:
  assumes "toNumber (int n) = Finite v"
  shows "2 * \<bar>v - int n\<bar> \<le> 2 ^ binaryExponent n"
proof -
  from assms obtain w where w: "roundToDouble n = Some w" and v: "v = int w"
    by (auto simp: toNumber_def split: option.splits)
  from roundToDouble_nearest(1) [OF w] v show ?thesis by simp
qed

lemma toNumber_examples:
  "toNumber 9007199254740993 = Finite 9007199254740992"
  "toNumber 9007199254740995 = Finite 9007199254740996"
  using roundToDouble_examples by (simp_all add: toNumber_def)

section \<open>Claims\<close>

text \<open>
  \<^bold>\<open>C5.\<close>  For every smart-search intent whose batch flag is set, \<^const>\<open>smartSearch\<close>
  returns the empty list, whatever the query, the media titles, the target episode, the
  offset and the target resolution are, and whatever the host would answer.
\<close>

theorem smartSearch_batch_empty:
  "batch opts \<Longrightarrow> smartSearch h opts = Inr []"
  by (simp add: smartSearch_def)

theorem smartSearch_batch_empty_witness:
  "batch (ex_opts True 5 12 ''1080p'') \<and>
   smartSearch (ex_host [(''1'', ex_release ''5'' [])]) (ex_opts True 5 12 ''1080p'') = Inr []"
  using smartSearch_batch_empty
    [of "ex_opts True 5 12 ''1080p''" "ex_host [(''1'', ex_release ''5'' [])]"]
  by (simp add: ex_opts_def)

text \<open>
  \<^bold>\<open>C2.\<close>  A payload entry whose episode label is the literal \<^verbatim>\<open>Batch\<close> contributes no
  entity: alone it yields the empty list, and anywhere in a payload the loop returns what
  it returns on the payload without that entry.  The same holds of the list that
  \<^const>\<open>fetchAndParseSearchResults\<close> returns, for every query string; the batch flag of
  the caller is not an input of the builder.
\<close>

theorem batch_entries_contribute_nothing:
  assumes "episode r = ''Batch''"
  shows "collect h i [(k, r)] = [] \<and>
         collect h i (xs @ (k, r) # ys) = collect h i (xs @ ys) \<and>
         (fetch h (searchUrl_of q) = Inr resp \<and> ok resp \<and>
          json resp = Inr (Object (xs @ (k, r) # ys)) \<longrightarrow>
          fetchAndParseSearchResults h q = Inr (collect h 0 (xs @ ys)))"
proof -
  have one: "collect h i [(k, r)] = []"
    using assms by simp
  have drop: "collect h j (xs @ (k, r) # ys) = collect h j (xs @ ys)" for j
    using assms by (simp add: collect_append)
  have "fetchAndParseSearchResults h q = Inr (collect h 0 (xs @ ys))"
    if "fetch h (searchUrl_of q) = Inr resp" "ok resp"
       "json resp = Inr (Object (xs @ (k, r) # ys))"
    using fetchAndParseSearchResults_ok [OF that] drop [of 0] by simp
  with one drop [of i] show ?thesis by blast
qed

theorem batch_entries_contribute_nothing_witness:
  "episode (ex_release ''Batch'' []) = ''Batch'' \<and>
   collect (ex_host []) 0 [(''2'', ex_release ''Batch'' [])] = [] \<and>
   fetch (ex_host [(''1'', ex_release ''3'' []), (''2'', ex_release ''Batch'' []),
                   (''3'', ex_release ''4'' [])]) (searchUrl_of ''X'') =
     Inr \<lparr> ok = True, status = 200,
           json = Inr (Object ([(''1'', ex_release ''3'' [])] @
                    (''2'', ex_release ''Batch'' []) # [(''3'', ex_release ''4'' [])])) \<rparr> \<and>
   map_sum id (map episodeNumber)
     (fetchAndParseSearchResults
        (ex_host [(''1'', ex_release ''3'' []), (''2'', ex_release ''Batch'' []),
                  (''3'', ex_release ''4'' [])]) ''X'') = Inr [Finite 3, Finite 3, Finite 4, Finite 4]"
proof -
  let ?b = "ex_release ''Batch'' []"
  let ?xs = "[(''1'', ex_release ''3'' [])]"
  let ?ys = "[(''3'', ex_release ''4'' [])]"
  let ?h = "ex_host [(''1'', ex_release ''3'' []), (''2'', ?b), (''3'', ex_release ''4'' [])]"
  let ?resp = "\<lparr> ok = True, status = 200,
                 json = Inr (Object (?xs @ (''2'', ?b) # ?ys)) \<rparr>"
  have b: "episode ?b = ''Batch''"
    by (simp add: ex_release_fields)
  have f: "fetch ?h (searchUrl_of ''X'') = Inr ?resp"
    by (simp add: ex_host_def)
  have r: "fetchAndParseSearchResults ?h ''X'' = Inr (collect ?h 0 (?xs @ ?ys))"
    using batch_entries_contribute_nothing
            [OF b, where h = ?h and k = "''2''" and xs = ?xs and ys = ?ys and q = "''X''"
               and resp = ?resp] f
    by simp
  have e: "collect (ex_host []) 0 [(''2'', ?b)] = []"
    using batch_entries_contribute_nothing
            [OF b, where h = "ex_host []" and i = 0 and k = "''2''"]
    by blast
  have m: "map episodeNumber (collect ?h 0 (?xs @ ?ys)) =
             [Finite 3, Finite 3, Finite 4, Finite 4]"
    by (simp add: ex_release_fields map_episodeNumber_apiReleaseToAnimeTorrents
          parseInt_examples)
  from b f r e m show ?thesis by simp
qed



text \<open>
  \<^bold>\<open>C3.\<close>  The Release Normalizer produces one entity per download of the release, in
  the order of the downloads (the magnet links are the downloads' magnets, in order), and
  the resolution label of each is the quality label of its download followed by \<^verbatim>\<open>p\<close>.
  For a release that is not a batch this is what the Result Set Builder contributes.
\<close>

theorem normalizer_one_entity_per_download:
  "length (apiReleaseToAnimeTorrents h i r) = length (downloads r) \<and>
   map resolution (apiReleaseToAnimeTorrents h i r) = map (\<lambda>d. res d @ ''p'') (downloads r) \<and>
   map magnetLink (apiReleaseToAnimeTorrents h i r) = map magnet (downloads r) \<and>
   (episode r \<noteq> ''Batch'' \<longrightarrow> collect h i [(k, r)] = apiReleaseToAnimeTorrents h i r)"
  by (simp add: length_apiReleaseToAnimeTorrents resolution_apiReleaseToAnimeTorrents
        magnetLink_apiReleaseToAnimeTorrents)

theorem normalizer_one_entity_per_download_witness:
  "episode (ex_release ''3'' []) \<noteq> ''Batch'' \<and>
   length (downloads (ex_release ''3'' [])) = 2 \<and>
   length (collect (ex_host []) 0 [(''1'', ex_release ''3'' [])]) = 2 \<and>
   map resolution (collect (ex_host []) 0 [(''1'', ex_release ''3'' [])]) = [''720p'', ''1080p''] \<and>
   map magnetLink (collect (ex_host []) 0 [(''1'', ex_release ''3'' [])]) =
     [''magnet:?xt=urn:btih:HASH1&xl=500'', ''magnet:?xt=urn:btih:abcd1234&xl=1048576'']"
proof -
  let ?r = "ex_release ''3'' []"
  have e: "episode ?r \<noteq> ''Batch''"
    by (simp add: ex_release_fields)
  have d: "downloads ?r = [ex_download_720, ex_download_1080]"
    by (simp add: ex_release_fields)
  from normalizer_one_entity_per_download [of "ex_host []" 0 ?r "''1''"] e d
  show ?thesis
    by (simp add: ex_download_720_def ex_download_1080_def)
qed

text \<open>
  \<^bold>\<open>C9.\<close>  As stated the claim fails: the episode label \<^verbatim>\<open>-5\<close> parses to \<open>-5\<close>, and
  the entities of that release carry the episode number \<open>-5\<close>, which is neither the
  sentinel nor non-negative.
\<close>

theorem negative_episode_label_counterexample:
  "parseInt (episode (ex_release ''-5'' [])) = Finite (- 5) \<and>
   map episodeNumber (apiReleaseToAnimeTorrents (ex_host []) 0 (ex_release ''-5'' [])) =
     [Finite (- 5), Finite (- 5)]"
  by (simp add: ex_release_fields map_episodeNumber_apiReleaseToAnimeTorrents parseInt_examples)

text \<open>
  \<^bold>\<open>C9, as amended.\<close>  The episode number of every produced entity is \<open>-1\<close> when the
  episode label fails integer parsing, and otherwise equals the integer parse of the
  label; it is negative only if the label, after its leading white space, begins with a
  minus sign.  (For a digit run beyond the range of doubles the parse, and so the episode
  number, is an infinity.)
\<close>

theorem episode_number_is_parse_or_sentinel:
  assumes "t \<in> set (apiReleaseToAnimeTorrents h i r)"
  shows "(parseInt (episode r) = NaN \<longrightarrow> episodeNumber t = Finite (- 1)) \<and>
         (\<forall>n. parseInt (episode r) = Finite n \<longrightarrow>
            episodeNumber t = Finite n \<and>
            (n < 0 \<longrightarrow> take 1 (dropWhile isWhiteSpace (episode r)) = ''-'')) \<and>
         (parseInt (episode r) = Infinity \<longrightarrow> episodeNumber t = Infinity) \<and>
         (parseInt (episode r) = MinusInfinity \<longrightarrow>
            episodeNumber t = MinusInfinity \<and>
            take 1 (dropWhile isWhiteSpace (episode r)) = ''-'')"
  using episodeNumber_apiReleaseToAnimeTorrents [OF assms] parseInt_minus_sign [of "episode r"]
  by auto

theorem episode_number_is_parse_or_sentinel_witness:
  "hd (apiReleaseToAnimeTorrents (ex_host []) 0 (ex_release ''3'' []))
     \<in> set (apiReleaseToAnimeTorrents (ex_host []) 0 (ex_release ''3'' [])) \<and>
   parseInt ''3'' = Finite 3 \<and>
   episodeNumber (hd (apiReleaseToAnimeTorrents (ex_host []) 0 (ex_release ''3'' []))) = Finite 3 \<and>
   hd (apiReleaseToAnimeTorrents (ex_host []) 0 (ex_release ''Movie'' []))
     \<in> set (apiReleaseToAnimeTorrents (ex_host []) 0 (ex_release ''Movie'' [])) \<and>
   parseInt ''Movie'' = NaN \<and>
   episodeNumber (hd (apiReleaseToAnimeTorrents (ex_host []) 0 (ex_release ''Movie'' []))) =
     Finite (- 1) \<and>
   hd (apiReleaseToAnimeTorrents (ex_host []) 0 (ex_release ''-5'' []))
     \<in> set (apiReleaseToAnimeTorrents (ex_host []) 0 (ex_release ''-5'' [])) \<and>
   parseInt ''-5'' = Finite (- 5) \<and>
   episodeNumber (hd (apiReleaseToAnimeTorrents (ex_host []) 0 (ex_release ''-5'' []))) =
     Finite (- 5) \<and>
   take 1 (dropWhile isWhiteSpace ''-5'') = ''-''"
proof -
  let ?h = "ex_host []"
  have ne: "apiReleaseToAnimeTorrents ?h 0 (ex_release ep []) \<noteq> []" for ep
    using length_apiReleaseToAnimeTorrents [of ?h 0 "ex_release ep []"]
    by (auto simp: ex_release_fields)
  have m: "hd (apiReleaseToAnimeTorrents ?h 0 (ex_release ep []))
             \<in> set (apiReleaseToAnimeTorrents ?h 0 (ex_release ep []))" for ep
    using ne [of ep] by simp
  have p: "parseInt (episode (ex_release ''3'' [])) = Finite 3"
    "parseInt (episode (ex_release ''Movie'' [])) = NaN"
    "parseInt (episode (ex_release ''-5'' [])) = Finite (- 5)"
    by (simp_all add: ex_release_fields parseInt_examples)
  have a: "episodeNumber (hd (apiReleaseToAnimeTorrents ?h 0 (ex_release ''3'' []))) = Finite 3"
    using episode_number_is_parse_or_sentinel [OF m [of "''3''"]] p(1) by simp
  have b: "episodeNumber (hd (apiReleaseToAnimeTorrents ?h 0 (ex_release ''Movie'' []))) =
             Finite (- 1)"
    using episode_number_is_parse_or_sentinel [OF m [of "''Movie''"]] p(2) by simp
  have c: "episodeNumber (hd (apiReleaseToAnimeTorrents ?h 0 (ex_release ''-5'' []))) =
             Finite (- 5)"
    "take 1 (dropWhile isWhiteSpace (episode (ex_release ''-5'' []))) = ''-''"
    using episode_number_is_parse_or_sentinel [OF m [of "''-5''"]] p(3) by simp_all
  from m [of "''3''"] m [of "''Movie''"] m [of "''-5''"] a b c show ?thesis
    by (simp add: parseInt_examples ex_release_fields)
qed

text \<open>
  \<^bold>\<open>C7.\<close>  When the transport answers the search request with a response that is not
  ok, \<^const>\<open>fetchAndParseSearchResults\<close> fails with the error whose message carries
  the status code (the message determines the code), and so do \<^const>\<open>getLatest\<close>,
  \<^const>\<open>search\<close> and (when the batch flag is not set, so that the fetch is reached)
  \<^const>\<open>smartSearch\<close>: the result is the error itself, never a list.
\<close>

theorem fetch_failure_propagates:
  assumes "fetch h (searchUrl_of q) = Inr resp" and "\<not> ok resp"
  shows "fetchAndParseSearchResults h q = Inl (fetchFailure (status resp)) \<and>
         (q = [] \<longrightarrow> getLatest h = Inl (fetchFailure (status resp))) \<and>
         (query sopts = q \<longrightarrow> search h sopts = Inl (fetchFailure (status resp))) \<and>
         (\<not> batch opts \<and> effectiveQuery opts = q \<longrightarrow>
            smartSearch h opts = Inl (fetchFailure (status resp))) \<and>
         (\<forall>code. fetchFailure code = fetchFailure (status resp) \<longrightarrow> code = status resp)"
proof -
  have f: "fetchAndParseSearchResults h q = Inl (fetchFailure (status resp))"
    using assms by (rule fetchAndParseSearchResults_not_ok)
  have l: "q = [] \<longrightarrow> getLatest h = Inl (fetchFailure (status resp))"
    using f by (auto simp: getLatest_def)
  have s: "query sopts = q \<longrightarrow> search h sopts = Inl (fetchFailure (status resp))"
    using f by (auto simp: search_def)
  have m: "\<not> batch opts \<and> effectiveQuery opts = q \<longrightarrow>
             smartSearch h opts = Inl (fetchFailure (status resp))"
    using f by (auto simp: smartSearch_fetch)
  have i: "\<forall>code. fetchFailure code = fetchFailure (status resp) \<longrightarrow> code = status resp"
    using fetchFailure_inj by blast
  from f l s m i show ?thesis by (intro conjI)
qed

theorem fetch_failure_propagates_witness:
  "fetch (ex_host_status 503) (searchUrl_of ''X'') =
     Inr \<lparr> ok = False, status = 503, json = Inr NotObject \<rparr> \<and>
   \<not> ok \<lparr> ok = False, status = 503, json = Inr NotObject \<rparr> \<and>
   fetchAndParseSearchResults (ex_host_status 503) ''X'' =
     Inl (Error ''Failed to fetch from SubsPlease API, status: 503'') \<and>
   getLatest (ex_host_status 503) =
     Inl (Error ''Failed to fetch from SubsPlease API, status: 503'') \<and>
   search (ex_host_status 503) (ex_opts False 5 12 ''1080p'') =
     Inl (Error ''Failed to fetch from SubsPlease API, status: 503'') \<and>
   smartSearch (ex_host_status 503) (ex_opts False 5 12 ''1080p'') =
     Inl (Error ''Failed to fetch from SubsPlease API, status: 503'')"
proof -
  let ?h = "ex_host_status 503"
  let ?resp = "\<lparr> ok = False, status = 503, json = Inr NotObject \<rparr>"
  let ?o = "ex_opts False 5 12 ''1080p''"
  have f: "fetch ?h (searchUrl_of u) = Inr ?resp" for u
    by (simp add: ex_host_status_def)
  have n: "\<not> ok ?resp" by simp
  have q: "effectiveQuery ?o = ''X''" "\<not> batch ?o" "query ?o = []"
    by (simp_all add: effectiveQuery_def ex_opts_def or_else_def)
  have e: "fetchFailure (status ?resp) =
             Error ''Failed to fetch from SubsPlease API, status: 503''"
    by (simp add: fetchFailure_def String_int_503)
  note x = fetch_failure_propagates [OF f n, where q = "''X''" and opts = ?o and sopts = ?o]
  note y = fetch_failure_propagates [OF f n, where q = "[]" and opts = ?o and sopts = ?o]
  have a: "fetchAndParseSearchResults ?h ''X'' = Inl (fetchFailure (status ?resp))"
    using x by (rule conjunct1)
  have b: "getLatest ?h = Inl (fetchFailure (status ?resp))"
    using y [THEN conjunct2, THEN conjunct1] by simp
  have c: "search ?h ?o = Inl (fetchFailure (status ?resp))"
    using y [THEN conjunct2, THEN conjunct2, THEN conjunct1] q(3) by simp
  have d: "smartSearch ?h ?o = Inl (fetchFailure (status ?resp))"
    using x [THEN conjunct2, THEN conjunct2, THEN conjunct2, THEN conjunct1] q(1,2) by simp
  from f [of "''X''"] n a b c d show ?thesis
    unfolding e by (intro conjI)
qed

text \<open>
  \<^bold>\<open>C10.\<close>  When the target resolution is non-empty and its integer parse fails, the
  resolution block of \<^const>\<open>smartSearch\<close> returns its input unchanged, so that the
  search returns every entity that passed the episode block, whatever its resolution.
\<close>

theorem unparsable_target_resolution_skips_filter:
  assumes "AnimeSmartSearchOptions.resolution opts \<noteq> []"
    and "parseInt (replace_first CHR ''p'' (AnimeSmartSearchOptions.resolution opts)) = NaN"
  shows "filterResolution opts ts = ts \<and>
         (\<not> batch opts \<and> fetchAndParseSearchResults h (effectiveQuery opts) = Inr allTorrents \<longrightarrow>
            smartSearch h opts = Inr (filterEpisode opts allTorrents))"
  using assms by (simp add: filterResolution_def smartSearch_fetch)

theorem unparsable_target_resolution_skips_filter_witness:
  "AnimeSmartSearchOptions.resolution (ex_opts False 0 0 ''abc'') \<noteq> [] \<and>
   parseInt (replace_first CHR ''p''
     (AnimeSmartSearchOptions.resolution (ex_opts False 0 0 ''abc''))) = NaN \<and>
   filterResolution (ex_opts False 0 0 ''abc'') [ex_torrent ''720'', ex_torrent ''x''] =
     [ex_torrent ''720'', ex_torrent ''x''] \<and>
   map_sum id (map resolution)
     (smartSearch (ex_host [(''1'', ex_release ''3'' [])]) (ex_opts False 0 0 ''abc'')) =
     Inr [''720p'', ''1080p'']"
proof -
  let ?o = "ex_opts False 0 0 ''abc''"
  let ?h = "ex_host [(''1'', ex_release ''3'' [])]"
  have a: "AnimeSmartSearchOptions.resolution ?o \<noteq> []"
    by (simp add: ex_opts_def)
  have b: "parseInt (replace_first CHR ''p'' (AnimeSmartSearchOptions.resolution ?o)) = NaN"
    by (simp add: ex_opts_def parseInt_examples)
  have c: "\<not> batch ?o" "AnimeSmartSearchOptions.episodeNumber ?o = 0"
    by (simp_all add: ex_opts_def)
  have s: "smartSearch ?h ?o =
             Inr (filterEpisode ?o (collect ?h 0 [(''1'', ex_release ''3'' [])]))"
    using unparsable_target_resolution_skips_filter
            [OF a b, where h = ?h and allTorrents = "collect ?h 0 [(''1'', ex_release ''3'' [])]"]
          c ex_host_fetch
    by simp
  have r: "map resolution (filterEpisode ?o (collect ?h 0 [(''1'', ex_release ''3'' [])])) =
             [''720p'', ''1080p'']"
    by (simp add: filterEpisode_def c ex_release_fields resolution_apiReleaseToAnimeTorrents
          ex_download_720_def ex_download_1080_def)
  from unparsable_target_resolution_skips_filter
         [OF a b, where ts = "[ex_torrent ''720'', ex_torrent ''x'']"] a b s r
  show ?thesis by simp
qed

text \<open>
  \<^bold>\<open>C1.\<close>  As stated the claim fails in two places.  With the non-empty target
  \<^verbatim>\<open>abc\<close>, which does not parse, the resolution block keeps every entity, those whose
  label does not parse included.  And the label is normalised by removing its first
  \<^verbatim>\<open>p\<close>, not its last character: with target \<^verbatim>\<open>1080p\<close> the label \<^verbatim>\<open>10p80p\<close> is
  read as 1080 and kept, while without its trailing unit it parses to 10.
\<close>

theorem resolution_filter_counterexample:
  "AnimeSmartSearchOptions.resolution (ex_opts False 0 0 ''abc'') \<noteq> [] \<and>
   filterResolution (ex_opts False 0 0 ''abc'') [ex_torrent ''720'', ex_torrent ''x''] =
     [ex_torrent ''720'', ex_torrent ''x''] \<and>
   parseInt (stripTrailingUnit (AnimeSmartSearchOptions.resolution (ex_opts False 0 0 ''abc''))) = NaN \<and>
   \<not> numericallyEqual (parseInt (stripTrailingUnit (resolution (ex_torrent ''720''))))
        (parseInt (stripTrailingUnit (AnimeSmartSearchOptions.resolution (ex_opts False 0 0 ''abc'')))) \<and>
   parseInt (stripTrailingUnit (resolution (ex_torrent ''x''))) = NaN \<and>
   filterResolution (ex_opts False 0 0 ''1080p'') [ex_torrent ''10p80''] = [ex_torrent ''10p80''] \<and>
   parseInt (stripTrailingUnit (resolution (ex_torrent ''10p80''))) = Finite 10 \<and>
   parseInt (stripTrailingUnit (AnimeSmartSearchOptions.resolution (ex_opts False 0 0 ''1080p''))) = Finite 1080"
  by (simp add: filterResolution_def Let_def strictEquals_def ex_opts_def ex_torrent_resolution
        parseInt_examples stripTrailingUnit_examples numericallyEqual_def)

text \<open>
  \<^bold>\<open>C1, as amended.\<close>  For a non-empty target resolution whose parse succeeds, the
  resolution block keeps exactly the entities whose label parses to the same number,
  where a label is parsed by \<^const>\<open>parseInt\<close> after its first \<^verbatim>\<open>p\<close> is removed; an
  entity whose label fails to parse is then never kept.  An empty target imposes no
  constraint.  For a label whose only \<^verbatim>\<open>p\<close>, if any, is its last character, removing
  the first \<^verbatim>\<open>p\<close> is stripping the trailing unit.
\<close>

theorem resolution_filter_numeric:
  "(AnimeSmartSearchOptions.resolution opts \<noteq> [] \<and>
    parseInt (replace_first CHR ''p'' (AnimeSmartSearchOptions.resolution opts)) = x \<and> x \<noteq> NaN \<longrightarrow>
      filterResolution opts ts =
        filter (\<lambda>t. numericallyEqual (parseInt (replace_first CHR ''p'' (resolution t))) x) ts \<and>
      (\<forall>t. parseInt (replace_first CHR ''p'' (resolution t)) = NaN \<longrightarrow>
           t \<notin> set (filterResolution opts ts))) \<and>
   (AnimeSmartSearchOptions.resolution opts = [] \<longrightarrow> filterResolution opts ts = ts) \<and>
   (CHR ''p'' \<notin> set (butlast s) \<longrightarrow> replace_first CHR ''p'' s = stripTrailingUnit s)"
proof -
  have keep: "filterResolution opts ts =
        filter (\<lambda>t. numericallyEqual (parseInt (replace_first CHR ''p'' (resolution t))) x) ts"
    if "AnimeSmartSearchOptions.resolution opts \<noteq> []"
       "parseInt (replace_first CHR ''p'' (AnimeSmartSearchOptions.resolution opts)) = x"
       "x \<noteq> NaN"
    using that
    by (simp add: filterResolution_def Let_def numericallyEqual_not_NaN strictEquals_not_NaN)
  have never: "t \<notin> set (filterResolution opts ts)"
    if "AnimeSmartSearchOptions.resolution opts \<noteq> []"
       "parseInt (replace_first CHR ''p'' (AnimeSmartSearchOptions.resolution opts)) = x"
       "x \<noteq> NaN"
       "parseInt (replace_first CHR ''p'' (resolution t)) = NaN" for t
    using that by (simp add: filterResolution_def Let_def strictEquals_def)
  have empty: "filterResolution opts ts = ts" if "AnimeSmartSearchOptions.resolution opts = []"
    using that by (simp add: filterResolution_def)
  from keep never empty replace_first_stripTrailingUnit [of s] show ?thesis
    by blast
qed

theorem resolution_filter_numeric_witness:
  "AnimeSmartSearchOptions.resolution (ex_opts False 0 0 ''1080'') \<noteq> [] \<and>
   parseInt (replace_first CHR ''p'' (AnimeSmartSearchOptions.resolution (ex_opts False 0 0 ''1080'')))
     = Finite 1080 \<and> Finite 1080 \<noteq> NaN \<and>
   filterResolution (ex_opts False 0 0 ''1080'')
     [ex_torrent ''720'', ex_torrent ''1080'', ex_torrent ''x'', ex_torrent '' 01080''] =
     [ex_torrent ''1080'', ex_torrent '' 01080''] \<and>
   AnimeSmartSearchOptions.resolution (ex_opts False 0 0 []) = [] \<and>
   filterResolution (ex_opts False 0 0 []) [ex_torrent ''720'', ex_torrent ''x''] =
     [ex_torrent ''720'', ex_torrent ''x''] \<and>
   CHR ''p'' \<notin> set (butlast ''1080p'') \<and>
   replace_first CHR ''p'' ''1080p'' = ''1080''"
proof -
  let ?o = "ex_opts False 0 0 ''1080''"
  let ?e = "ex_opts False 0 0 []"
  let ?ts = "[ex_torrent ''720'', ex_torrent ''1080'', ex_torrent ''x'', ex_torrent '' 01080'']"
  have a: "AnimeSmartSearchOptions.resolution ?o \<noteq> []"
    by (simp add: ex_opts_def)
  have b: "parseInt (replace_first CHR ''p'' (AnimeSmartSearchOptions.resolution ?o)) = Finite 1080"
    by (simp add: ex_opts_def parseInt_examples)
  have c: "AnimeSmartSearchOptions.resolution ?e = []"
    by (simp add: ex_opts_def)
  have d: "CHR ''p'' \<notin> set (butlast ''1080p'')"
    by simp
  have p: "parseInt '' 01080'' = Finite 1080"
    by (simp add: parseInt_def isWhiteSpace_def isDigit_def decimalValue_def digitValue_def
          toNumber_small)
  have f: "filterResolution ?o ?ts = [ex_torrent ''1080'', ex_torrent '' 01080'']"
    using resolution_filter_numeric [where opts = ?o and x = "Finite 1080" and ts = ?ts] a b
    by (simp add: numericallyEqual_def ex_torrent_resolution parseInt_examples p)
  have g: "filterResolution ?e [ex_torrent ''720'', ex_torrent ''x''] =
             [ex_torrent ''720'', ex_torrent ''x'']"
    using resolution_filter_numeric [where opts = ?e and ts = "[ex_torrent ''720'', ex_torrent ''x'']"] c
    by simp
  have h: "replace_first CHR ''p'' ''1080p'' = ''1080''"
    using resolution_filter_numeric [where s = "''1080p''"] d
    by (simp add: stripTrailingUnit_examples)
  from a b c d f g h show ?thesis by simp
qed

text \<open>
  \<^bold>\<open>C6, as stated, fails.\<close>  The size is not always the integer that follows
  \<^verbatim>\<open>xl=\<close>: the code returns the Number that \<^verbatim>\<open>parseInt\<close> gives, a double.  The digits
  9007199254740993 denote an integer that no double holds, and the size returned is
  9007199254740992.
\<close>

theorem magnet_size_rounding_counterexample:
  "list_all isDigit ''9007199254740993'' \<and>
   decimalValue ''9007199254740993'' = 9007199254740993 \<and>
   getSizeFromMagnet (''magnet:?xt=urn:btih:ABCD1234&'' @ ''xl='' @ ''9007199254740993'' @ []) =
     Finite 9007199254740992 \<and>
   getSizeFromMagnet (''magnet:?xt=urn:btih:ABCD1234&'' @ ''xl='' @ ''9007199254740993'' @ []) \<noteq>
     Finite (int (decimalValue ''9007199254740993''))"
  using magnet_size_rounded(1,2) by (simp add: isDigit_def)

text \<open>
  \<^bold>\<open>C6, as amended.\<close>  The Magnet Parser is total: both functions return a plain value
  for every string.  The info-hash is empty exactly when no \<^verbatim>\<open>btih:\<close> is followed by an
  alphanumeric character; otherwise it is the upper-cased token (the longest alphanumeric
  run) after the first such marker, and consists of digits and upper-case letters.  The
  size is 0 when no \<^verbatim>\<open>xl=\<close> is followed by a digit; otherwise it is the Number nearest to
  the decimal value of the digits after the first such marker: that value itself when it
  is below \<open>2\<^sup>5\<^sup>3\<close>, and when finite within half a unit in the last place of it.  The
  size is never NaN and never negative.  The two examples of the specification evaluate
  as stated.
\<close>

theorem magnet_parser_contract:
  "(getHashFromMagnet m = [] \<longleftrightarrow>
      \<not> (\<exists>pre c rest. m = pre @ ''btih:'' @ c # rest \<and> isAlnum c)) \<and>
   (m = pre @ ''btih:'' @ tok @ rest \<and> tok \<noteq> [] \<and> (\<forall>c\<in>set tok. isAlnum c) \<and>
    (rest = [] \<or> \<not> isAlnum (hd rest)) \<and>
    (\<forall>pre' c r. length pre' < length pre \<and> m = pre' @ ''btih:'' @ c # r \<longrightarrow> \<not> isAlnum c)
    \<longrightarrow> getHashFromMagnet m = toUpperCase tok) \<and>
   (\<forall>c\<in>set (getHashFromMagnet m). isDigit c \<or> isUpper c) \<and>
   (\<not> (\<exists>pre c rest. m = pre @ ''xl='' @ c # rest \<and> isDigit c) \<longrightarrow>
      getSizeFromMagnet m = Finite 0) \<and>
   (m = pre2 @ ''xl='' @ tok2 @ rest2 \<and> tok2 \<noteq> [] \<and> (\<forall>c\<in>set tok2. isDigit c) \<and>
    (rest2 = [] \<or> \<not> isDigit (hd rest2)) \<and>
    (\<forall>pre' c r. length pre' < length pre2 \<and> m = pre' @ ''xl='' @ c # r \<longrightarrow> \<not> isDigit c)
    \<longrightarrow> getSizeFromMagnet m = toNumber (int (decimalValue tok2)) \<and>
        (decimalValue tok2 < 9007199254740992 \<longrightarrow>
           getSizeFromMagnet m = Finite (int (decimalValue tok2))) \<and>
        (\<forall>v. getSizeFromMagnet m = Finite v \<longrightarrow>
           2 * \<bar>v - int (decimalValue tok2)\<bar> \<le> 2 ^ binaryExponent (decimalValue tok2))) \<and>
   getSizeFromMagnet m \<noteq> NaN \<and>
   getSizeFromMagnet m \<noteq> MinusInfinity \<and>
   (\<forall>n. getSizeFromMagnet m = Finite n \<longrightarrow> 0 \<le> n) \<and>
   getHashFromMagnet ''magnet:?xt=urn:btih:ABCD1234&xl=1048576'' = ''ABCD1234'' \<and>
   getSizeFromMagnet ''magnet:?xt=urn:btih:ABCD1234&xl=1048576'' = Finite 1048576 \<and>
   getHashFromMagnet ''magnet:?xt=urn:btih:'' = [] \<and>
   getSizeFromMagnet ''magnet:?xt=urn:btih:'' = Finite 0"
proof -
  have c1: "getHashFromMagnet m = [] \<longleftrightarrow>
      \<not> (\<exists>pre c rest. m = pre @ ''btih:'' @ c # rest \<and> isAlnum c)"
  proof (cases "match_group ''btih:'' isAlnum m")
    case None
    then show ?thesis
      using match_group_None_iff [of "''btih:''" isAlnum m]
      by (simp add: getHashFromMagnet_def)
  next
    case (Some t)
    from match_group_sound [OF Some] have "t \<noteq> []" by blast
    with Some show ?thesis
      using match_group_None_iff [of "''btih:''" isAlnum m]
      by (simp add: getHashFromMagnet_def toUpperCase_def)
  qed
  have c2: "m = pre @ ''btih:'' @ tok @ rest \<and> tok \<noteq> [] \<and> (\<forall>c\<in>set tok. isAlnum c) \<and>
    (rest = [] \<or> \<not> isAlnum (hd rest)) \<and>
    (\<forall>pre' c r. length pre' < length pre \<and> m = pre' @ ''btih:'' @ c # r \<longrightarrow> \<not> isAlnum c)
    \<longrightarrow> getHashFromMagnet m = toUpperCase tok"
  proof
    assume h: "m = pre @ ''btih:'' @ tok @ rest \<and> tok \<noteq> [] \<and> (\<forall>c\<in>set tok. isAlnum c) \<and>
      (rest = [] \<or> \<not> isAlnum (hd rest)) \<and>
      (\<forall>pre' c r. length pre' < length pre \<and> m = pre' @ ''btih:'' @ c # r \<longrightarrow> \<not> isAlnum c)"
    then have m: "m = pre @ ''btih:'' @ tok @ rest" and t: "tok \<noteq> []"
      and a: "\<forall>c\<in>set tok. isAlnum c" and r: "rest = [] \<or> \<not> isAlnum (hd rest)"
      and e: "\<And>pre' c r. length pre' < length pre \<Longrightarrow> m = pre' @ ''btih:'' @ c # r \<Longrightarrow> \<not> isAlnum c"
      by blast+
    have "match_group ''btih:'' isAlnum (pre @ ''btih:'' @ tok @ rest) = Some tok"
      using t a r
    proof (rule match_group_Some)
      fix pre' c r
      assume "length pre' < length pre" "pre @ ''btih:'' @ tok @ rest = pre' @ ''btih:'' @ c # r"
      then show "\<not> isAlnum c" using e [of pre' c r] m by simp
    qed
    with m show "getHashFromMagnet m = toUpperCase tok"
      by (simp add: getHashFromMagnet_def)
  qed
  have c3: "\<forall>c\<in>set (getHashFromMagnet m). isDigit c \<or> isUpper c"
    using getHashFromMagnet_class by blast
  have c4: "\<not> (\<exists>pre c rest. m = pre @ ''xl='' @ c # rest \<and> isDigit c) \<longrightarrow>
      getSizeFromMagnet m = Finite 0"
  proof
    assume "\<not> (\<exists>pre c rest. m = pre @ ''xl='' @ c # rest \<and> isDigit c)"
    then show "getSizeFromMagnet m = Finite 0"
      using match_group_None_iff [of "''xl=''" isDigit m]
      by (simp add: getSizeFromMagnet_def)
  qed
  have c5: "m = pre2 @ ''xl='' @ tok2 @ rest2 \<and> tok2 \<noteq> [] \<and> (\<forall>c\<in>set tok2. isDigit c) \<and>
    (rest2 = [] \<or> \<not> isDigit (hd rest2)) \<and>
    (\<forall>pre' c r. length pre' < length pre2 \<and> m = pre' @ ''xl='' @ c # r \<longrightarrow> \<not> isDigit c)
    \<longrightarrow> getSizeFromMagnet m = toNumber (int (decimalValue tok2)) \<and>
        (decimalValue tok2 < 9007199254740992 \<longrightarrow>
           getSizeFromMagnet m = Finite (int (decimalValue tok2))) \<and>
        (\<forall>v. getSizeFromMagnet m = Finite v \<longrightarrow>
           2 * \<bar>v - int (decimalValue tok2)\<bar> \<le> 2 ^ binaryExponent (decimalValue tok2))"
  proof
    assume h: "m = pre2 @ ''xl='' @ tok2 @ rest2 \<and> tok2 \<noteq> [] \<and> (\<forall>c\<in>set tok2. isDigit c) \<and>
      (rest2 = [] \<or> \<not> isDigit (hd rest2)) \<and>
      (\<forall>pre' c r. length pre' < length pre2 \<and> m = pre' @ ''xl='' @ c # r \<longrightarrow> \<not> isDigit c)"
    then have m: "m = pre2 @ ''xl='' @ tok2 @ rest2" and t: "tok2 \<noteq> []"
      and a: "\<forall>c\<in>set tok2. isDigit c" and r: "rest2 = [] \<or> \<not> isDigit (hd rest2)"
      and e: "\<And>pre' c r. length pre' < length pre2 \<Longrightarrow> m = pre' @ ''xl='' @ c # r \<Longrightarrow> \<not> isDigit c"
      by blast+
    have "match_group ''xl='' isDigit (pre2 @ ''xl='' @ tok2 @ rest2) = Some tok2"
      using t a r
    proof (rule match_group_Some)
      fix pre' c r
      assume "length pre' < length pre2" "pre2 @ ''xl='' @ tok2 @ rest2 = pre' @ ''xl='' @ c # r"
      then show "\<not> isDigit c" using e [of pre' c r] m by simp
    qed
    moreover have "parseInt tok2 = toNumber (int (decimalValue tok2))"
      using t a by (rule parseInt_digits)
    ultimately have s: "getSizeFromMagnet m = toNumber (int (decimalValue tok2))"
      using m by (simp add: getSizeFromMagnet_def)
    have x: "getSizeFromMagnet m = Finite (int (decimalValue tok2))"
      if "decimalValue tok2 < 9007199254740992"
      using that s toNumber_small [of "int (decimalValue tok2)"] by simp
    have n: "2 * \<bar>v - int (decimalValue tok2)\<bar> \<le> 2 ^ binaryExponent (decimalValue tok2)"
      if "getSizeFromMagnet m = Finite v" for v
      using that s toNumber_nearest [of "decimalValue tok2" v] by simp
    from s x n
    show "getSizeFromMagnet m = toNumber (int (decimalValue tok2)) \<and>
        (decimalValue tok2 < 9007199254740992 \<longrightarrow>
           getSizeFromMagnet m = Finite (int (decimalValue tok2))) \<and>
        (\<forall>v. getSizeFromMagnet m = Finite v \<longrightarrow>
           2 * \<bar>v - int (decimalValue tok2)\<bar> \<le> 2 ^ binaryExponent (decimalValue tok2))"
      by blast
  qed
  have c6: "getSizeFromMagnet m \<noteq> NaN" "getSizeFromMagnet m \<noteq> MinusInfinity"
    "\<forall>n. getSizeFromMagnet m = Finite n \<longrightarrow> 0 \<le> n"
    using getSizeFromMagnet_nonneg [of m] by blast+
  show ?thesis
    by (intro conjI c1 c2 c3 c4 c5 c6 magnet_hash_examples(1,2) magnet_size_examples(1,2))
qed

theorem magnet_parser_contract_witness:
  "list_all isAlnum ''c0ffee'' \<and> \<not> isAlnum (hd ''-1&xl=x&xl=42'') \<and>
   match_group ''btih:'' isAlnum (''magnet:?xt=urn:btih:&dn='' @ ''btih:'') = None \<and>
   getHashFromMagnet
     (''magnet:?xt=urn:btih:&dn='' @ ''btih:'' @ ''c0ffee'' @ ''-1&xl=x&xl=42'') = ''C0FFEE'' \<and>
   list_all isDigit ''42'' \<and>
   match_group ''xl='' isDigit (''magnet:?xt=urn:btih:&dn=btih:c0ffee-1&xl=x&'' @ ''xl='') = None \<and>
   decimalValue ''42'' < 9007199254740992 \<and>
   getSizeFromMagnet
     (''magnet:?xt=urn:btih:&dn=btih:c0ffee-1&xl=x&'' @ ''xl='' @ ''42'' @ []) = Finite 42 \<and>
   list_all isDigit ''9007199254740995'' \<and> \<not> isDigit (hd ''&dn=x'') \<and>
   match_group ''xl='' isDigit (''magnet:?'' @ ''xl='') = None \<and>
   decimalValue ''9007199254740995'' = 9007199254740995 \<and>
   getSizeFromMagnet (''magnet:?'' @ ''xl='' @ ''9007199254740995'' @ ''&dn=x'') =
     Finite 9007199254740996 \<and>
   2 * \<bar>9007199254740996 - int (decimalValue ''9007199254740995'')\<bar> \<le>
     (2::int) ^ binaryExponent (decimalValue ''9007199254740995'') \<and>
   getHashFromMagnet ''magnet:?xl=7'' = [] \<and>
   getSizeFromMagnet ''magnet:?xt=urn:btih:ab'' = Finite 0"
proof -
  let ?pre = "''magnet:?xt=urn:btih:&dn=''"
  let ?rest = "''-1&xl=x&xl=42''"
  let ?m = "?pre @ ''btih:'' @ ''c0ffee'' @ ?rest"
  let ?pre2 = "''magnet:?xt=urn:btih:&dn=btih:c0ffee-1&xl=x&''"
  let ?m2 = "?pre2 @ ''xl='' @ ''42'' @ []"
  let ?pre3 = "''magnet:?''"
  let ?tok3 = "''9007199254740995''"
  let ?rest3 = "''&dn=x''"
  let ?m3 = "?pre3 @ ''xl='' @ ?tok3 @ ?rest3"
  have a1: "\<forall>c\<in>set ''c0ffee''. isAlnum c" and r1: "?rest = [] \<or> \<not> isAlnum (hd ?rest)"
    and t1: "''c0ffee'' \<noteq> []"
    by (simp_all add: isAlnum_def)
  have a2: "\<forall>c\<in>set ''42''. isDigit c" and r2: "[] = [] \<or> \<not> isDigit (hd [])"
    and t2: "''42'' \<noteq> []"
    by (simp_all add: isDigit_def)
  have a3: "\<forall>c\<in>set ?tok3. isDigit c" and r3: "?rest3 = [] \<or> \<not> isDigit (hd ?rest3)"
    and t3: "?tok3 \<noteq> []"
    by (simp_all add: isDigit_def)
  have n1: "match_group ''btih:'' isAlnum (?pre @ ''btih:'') = None"
    by code_simp
  have n2: "match_group ''xl='' isDigit (?pre2 @ ''xl='') = None"
    by code_simp
  have n5: "match_group ''xl='' isDigit (?pre3 @ ''xl='') = None"
    by code_simp
  have e1: "\<forall>pre' c r. length pre' < length ?pre \<and> ?m = pre' @ ''btih:'' @ c # r \<longrightarrow> \<not> isAlnum c"
  proof (intro allI impI, elim conjE)
    fix pre' c r
    assume "length pre' < length ?pre" "?m = pre' @ ''btih:'' @ c # r"
    then show "\<not> isAlnum c" by (rule no_earlier_match [OF n1])
  qed
  have e2: "\<forall>pre' c r. length pre' < length ?pre2 \<and> ?m2 = pre' @ ''xl='' @ c # r \<longrightarrow> \<not> isDigit c"
  proof (intro allI impI, elim conjE)
    fix pre' c r
    assume "length pre' < length ?pre2" "?m2 = pre' @ ''xl='' @ c # r"
    then show "\<not> isDigit c" by (rule no_earlier_match [OF n2])
  qed
  have e3: "\<forall>pre' c r. length pre' < length ?pre3 \<and> ?m3 = pre' @ ''xl='' @ c # r \<longrightarrow> \<not> isDigit c"
  proof (intro allI impI, elim conjE)
    fix pre' c r
    assume "length pre' < length ?pre3" "?m3 = pre' @ ''xl='' @ c # r"
    then show "\<not> isDigit c" by (rule no_earlier_match [OF n5])
  qed
  have u: "toUpperCase ''c0ffee'' = ''C0FFEE''" by code_simp
  have d: "decimalValue ''42'' = 42"
    by (simp add: decimalValue_def digitValue_def)
  have d3: "decimalValue ?tok3 = 9007199254740995"
    by (rule magnet_size_rounded(3))
  have "getHashFromMagnet ?m = toUpperCase ''c0ffee''"
    by (rule magnet_parser_contract
               [where m = ?m and pre = ?pre and tok = "''c0ffee''" and rest = ?rest,
                THEN conjunct2, THEN conjunct1, THEN mp])
       (intro conjI refl t1 a1 r1 e1)
  with u have h: "getHashFromMagnet ?m = ''C0FFEE''" by simp
  have k2: "decimalValue ''42'' < 9007199254740992"
    by (simp add: d)
  have "getSizeFromMagnet ?m2 = Finite (int (decimalValue ''42''))"
    by (rule magnet_parser_contract
               [where m = ?m2 and ?pre2.0 = ?pre2 and ?tok2.0 = "''42''" and ?rest2.0 = "[]",
                THEN conjunct2, THEN conjunct2, THEN conjunct2, THEN conjunct2,
                THEN conjunct1, THEN mp, THEN conjunct2, THEN conjunct1, THEN mp])
       (intro conjI refl t2 a2 r2 e2, rule k2)
  with d have s: "getSizeFromMagnet ?m2 = Finite 42" by simp
  have w3: "getSizeFromMagnet ?m3 = toNumber (int (decimalValue ?tok3)) \<and>
        (decimalValue ?tok3 < 9007199254740992 \<longrightarrow>
           getSizeFromMagnet ?m3 = Finite (int (decimalValue ?tok3))) \<and>
        (\<forall>v. getSizeFromMagnet ?m3 = Finite v \<longrightarrow>
           2 * \<bar>v - int (decimalValue ?tok3)\<bar> \<le> 2 ^ binaryExponent (decimalValue ?tok3))"
    by (rule magnet_parser_contract
               [where m = ?m3 and ?pre2.0 = ?pre3 and ?tok2.0 = ?tok3 and ?rest2.0 = ?rest3,
                THEN conjunct2, THEN conjunct2, THEN conjunct2, THEN conjunct2,
                THEN conjunct1, THEN mp])
       (intro conjI refl t3 a3 r3 e3)
  from w3 have "getSizeFromMagnet ?m3 = toNumber (int (decimalValue ?tok3))"
    by (rule conjunct1)
  then have s3: "getSizeFromMagnet ?m3 = Finite 9007199254740996"
    by (simp only: d3 of_nat_numeral toNumber_examples)
  from w3 have "\<forall>v. getSizeFromMagnet ?m3 = Finite v \<longrightarrow>
           2 * \<bar>v - int (decimalValue ?tok3)\<bar> \<le> 2 ^ binaryExponent (decimalValue ?tok3)"
    by (rule conjunct2 [THEN conjunct2])
  then have "getSizeFromMagnet ?m3 = Finite 9007199254740996 \<longrightarrow>
     2 * \<bar>9007199254740996 - int (decimalValue ?tok3)\<bar> \<le>
     (2::int) ^ binaryExponent (decimalValue ?tok3)"
    by (rule spec)
  then have b3: "2 * \<bar>9007199254740996 - int (decimalValue ?tok3)\<bar> \<le>
     (2::int) ^ binaryExponent (decimalValue ?tok3)"
    using s3 by (rule mp)
  have n3: "match_group ''btih:'' isAlnum ''magnet:?xl=7'' = None"
    by code_simp
  then have "\<not> (\<exists>pre c rest. ''magnet:?xl=7'' = pre @ ''btih:'' @ c # rest \<and> isAlnum c)"
    by (rule match_group_None_iff [THEN iffD1])
  then have h0: "getHashFromMagnet ''magnet:?xl=7'' = []"
    by (rule magnet_parser_contract [where m = "''magnet:?xl=7''", THEN conjunct1, THEN iffD2])
  have n4: "match_group ''xl='' isDigit ''magnet:?xt=urn:btih:ab'' = None"
    by code_simp
  then have "\<not> (\<exists>pre c rest. ''magnet:?xt=urn:btih:ab'' = pre @ ''xl='' @ c # rest \<and> isDigit c)"
    by (rule match_group_None_iff [THEN iffD1])
  then have s0: "getSizeFromMagnet ''magnet:?xt=urn:btih:ab'' = Finite 0"
    by (rule magnet_parser_contract
               [where m = "''magnet:?xt=urn:btih:ab''",
                THEN conjunct2, THEN conjunct2, THEN conjunct2, THEN conjunct1, THEN mp])
  have l1: "list_all isAlnum ''c0ffee''" "\<not> isAlnum (hd ?rest)"
    by (simp_all add: isAlnum_def)
  have l2: "list_all isDigit ''42''" "list_all isDigit ?tok3" "\<not> isDigit (hd ?rest3)"
    by (simp_all add: isDigit_def)
  show ?thesis
    by (intro conjI l1 l2 n1 n2 n5 k2 d3 h s s3 b3 h0 s0)
qed

text \<open>
  \<^bold>\<open>C8.\<close>  The timestamp of every produced entity is a string, and a valid ISO 8601 one
  that denotes the intended instant: it is \<^const>\<open>toISOString\<close> of the parsed release date
  when the host's parser and \<^const>\<open>TimeClip\<close> give a time value, and of the clock reading
  of the normalizer call otherwise, and reading its fields back with
  \<^const>\<open>instantOfISO8601\<close> gives that time value, respectively that clock reading.  The
  clock reading is taken to be a time value, as the host guarantees.
\<close>

theorem timestamp_valid_iso8601:
  assumes "timeInRange (clock h i)" and "t \<in> set (apiReleaseToAnimeTorrents h i r)"
  shows "validISO8601 (date t) \<and>
         (\<forall>tv. new_Date h (release_date r) = Some tv \<longrightarrow>
            date t = toISOString tv \<and> instantOfISO8601 (date t) = Some tv) \<and>
         (new_Date h (release_date r) = None \<longrightarrow>
            date t = toISOString (clock h i) \<and> instantOfISO8601 (date t) = Some (clock h i))"
proof (cases "new_Date h (release_date r)")
  case None
  with date_apiReleaseToAnimeTorrents [OF assms(2)]
  have "date t = toISOString (clock h i)" by simp
  with None toISOString_valid [OF assms(1)] toISOString_instant [OF assms(1)]
  show ?thesis by simp
next
  case (Some tv)
  with date_apiReleaseToAnimeTorrents [OF assms(2)]
  have "date t = toISOString tv" by simp
  with Some toISOString_valid [OF new_Date_in_range [OF Some]]
       toISOString_instant [OF new_Date_in_range [OF Some]]
  show ?thesis by simp
qed

theorem timestamp_valid_iso8601_witness:
  "timeInRange (clock (ex_host []) 0) \<and>
   hd (apiReleaseToAnimeTorrents (ex_host []) 0 (ex_release ''3'' ''2024-01-01T00:00:00Z''))
     \<in> set (apiReleaseToAnimeTorrents (ex_host []) 0 (ex_release ''3'' ''2024-01-01T00:00:00Z'')) \<and>
   new_Date (ex_host []) (release_date (ex_release ''3'' ''2024-01-01T00:00:00Z'')) =
     Some 1704067200000 \<and>
   validISO8601 ''2024-01-01T00:00:00.000Z'' \<and>
   instantOfISO8601 ''2024-01-01T00:00:00.000Z'' = Some 1704067200000 \<and>
   date (hd (apiReleaseToAnimeTorrents (ex_host []) 0
               (ex_release ''3'' ''2024-01-01T00:00:00Z''))) = ''2024-01-01T00:00:00.000Z'' \<and>
   hd (apiReleaseToAnimeTorrents (ex_host []) 0 (ex_release ''3'' ''yesterday''))
     \<in> set (apiReleaseToAnimeTorrents (ex_host []) 0 (ex_release ''3'' ''yesterday'')) \<and>
   new_Date (ex_host []) (release_date (ex_release ''3'' ''yesterday'')) = None \<and>
   clock (ex_host []) 0 = 1800000000000 \<and>
   validISO8601 ''2027-01-15T08:00:00.000Z'' \<and>
   instantOfISO8601 ''2027-01-15T08:00:00.000Z'' = Some 1800000000000 \<and>
   date (hd (apiReleaseToAnimeTorrents (ex_host []) 0 (ex_release ''3'' ''yesterday'')))
     = ''2027-01-15T08:00:00.000Z''"
proof -
  let ?h = "ex_host []"
  let ?r = "ex_release ''3'' ''2024-01-01T00:00:00Z''"
  let ?u = "ex_release ''3'' ''yesterday''"
  let ?t = "hd (apiReleaseToAnimeTorrents ?h 0 ?r)"
  let ?v = "hd (apiReleaseToAnimeTorrents ?h 0 ?u)"
  have k: "clock ?h 0 = 1800000000000"
    by (rule ex_host_dates(4))
  have c: "timeInRange (clock ?h 0)"
    by (simp add: ex_host_dates timeInRange_def)
  have "apiReleaseToAnimeTorrents ?h 0 ?r \<noteq> []" "apiReleaseToAnimeTorrents ?h 0 ?u \<noteq> []"
    using length_apiReleaseToAnimeTorrents [of ?h 0 ?r]
          length_apiReleaseToAnimeTorrents [of ?h 0 ?u]
    by (auto simp: ex_release_fields)
  then have m: "?t \<in> set (apiReleaseToAnimeTorrents ?h 0 ?r)"
    "?v \<in> set (apiReleaseToAnimeTorrents ?h 0 ?u)"
    by simp_all
  have p: "new_Date ?h (release_date ?r) = Some 1704067200000"
    "new_Date ?h (release_date ?u) = None"
    by (simp_all add: ex_release_fields ex_host_dates)
  have d1: "date ?t = ''2024-01-01T00:00:00.000Z''"
    using timestamp_valid_iso8601 [OF c m(1)] p(1) by (simp add: toISOString_examples)
  have d2: "date ?v = ''2027-01-15T08:00:00.000Z''"
    using timestamp_valid_iso8601 [OF c m(2)] p(2)
    by (simp add: toISOString_examples ex_host_dates)
  have v1: "validISO8601 ''2024-01-01T00:00:00.000Z''"
    using timestamp_valid_iso8601 [OF c m(1)] d1 by simp
  have v2: "validISO8601 ''2027-01-15T08:00:00.000Z''"
    using timestamp_valid_iso8601 [OF c m(2)] d2 by simp
  have "instantOfISO8601 (date ?t) = Some 1704067200000"
    using timestamp_valid_iso8601 [OF c m(1), THEN conjunct2, THEN conjunct1] p(1) by blast
  then have i1: "instantOfISO8601 ''2024-01-01T00:00:00.000Z'' = Some 1704067200000"
    by (simp only: d1)
  have "instantOfISO8601 (date ?v) = Some (clock ?h 0)"
    using timestamp_valid_iso8601 [OF c m(2), THEN conjunct2, THEN conjunct2] p(2) by blast
  then have i2: "instantOfISO8601 ''2027-01-15T08:00:00.000Z'' = Some 1800000000000"
    by (simp only: d2 k)
  show ?thesis
    by (intro conjI c m p k d1 d2 v1 v2 i1 i2)
qed

end
